theory Spec2Isabelle
  imports Main "HOL-Library.Word" "HOL-Library.Signed_Division"
begin

section \<open>Noor: an SD-card WAV player with announcements\<close>

text \<open>
  The repository holds three revisions of one firmware \<^verbatim>\<open>main.c\<close>:
  \<^item> \<^verbatim>\<open>noor_v1\<close>: navigation and looping playback, no announcements;
  \<^item> \<^verbatim>\<open>noor_v2\<close>: announcements through the polled flag \<^verbatim>\<open>announce_request\<close>;
  \<^item> \<^verbatim>\<open>Noor_RTOS_version\<close>: announcements through task notifications and a
    shared \<^verbatim>\<open>stop_flag\<close>.
  Code that is textually the same in the three files is embedded once; code that differs
  is embedded per revision, with the suffixes \<open>_v1\<close>, \<open>_v2\<close> and \<open>_rtos\<close>.

  C \<^verbatim>\<open>int\<close>, \<^verbatim>\<open>int16_t\<close> and \<^verbatim>\<open>int32_t\<close> values are
  modelled as \<^typ>\<open>int\<close> with the two's-complement wrap-around written out;
  \<^verbatim>\<open>uint32_t\<close> tick times are \<^typ>\<open>32 word\<close>; C strings are \<^typ>\<open>string\<close>
  without the terminating NUL; an array together with its element count is a list.
\<close>

subsection \<open>Settings\<close>

definition DEBOUNCE_MS :: "32 word" where "DEBOUNCE_MS = 50"
definition ENC_STEP_DEBOUNCE_MS :: "32 word" where "ENC_STEP_DEBOUNCE_MS = 60"
definition MAX_WAV_FILES :: nat where "MAX_WAV_FILES = 64"
definition MAX_FOLDERS :: nat where "MAX_FOLDERS = 32"
definition ANNOUNCE_PATH_MAX :: nat where "ANNOUNCE_PATH_MAX = 256"

subsection \<open>Machine integers\<close>

definition int32_of :: "int \<Rightarrow> int" where
  \<comment> \<open>the value a 32-bit two's-complement register holds for the mathematical result\<close>
  "int32_of x = signed_take_bit 31 x"

definition int16_of :: "int \<Rightarrow> int" where
  "int16_of x = signed_take_bit 15 x"


definition clip16 :: "int \<Rightarrow> int" where
  "clip16 s = (if s > 32767 then 32767 else if s < - 32768 then - 32768 else int16_of s)"

definition scale_sample :: "int \<Rightarrow> int \<Rightarrow> int" where
  \<comment> \<open>\<^verbatim>\<open>int32_t scaled = ((int32_t)samps[i] * vol) / 100; samps[i] = clip16(scaled);\<close>\<close>
  "scale_sample vol s = clip16 (int32_of (int32_of (s * vol) sdiv 100))"

subsection \<open>The storage and allocation interface\<close>

datatype d_type_t = DT_DIR | DT_REG | DT_UNKNOWN | DT_OTHER

datatype st_mode_t = S_IFDIR | S_IFREG | S_IFOTHER

record dirent =
  d_name :: string
  d_type :: d_type_t

text \<open>
  What the firmware asks of its platform: \<^verbatim>\<open>opendir\<close>/\<^verbatim>\<open>readdir\<close> (the entries of a
  directory in the order \<^verbatim>\<open>readdir\<close> returns them, \<open>None\<close> when \<^verbatim>\<open>opendir\<close> fails),
  \<^verbatim>\<open>stat\<close>, \<^verbatim>\<open>access(path, F_OK)\<close>, \<^verbatim>\<open>fopen(path, "rb")\<close> (the bytes of the file) and
  whether \<^verbatim>\<open>malloc\<close> of a given size succeeds; whether mounting the card succeeds;
  whether \<^verbatim>\<open>i2s_driver_install\<close> succeeds for a sample rate and channel count, and
  whether \<^verbatim>\<open>i2s_set_pin\<close> succeeds.
\<close>

record platform =
  opendir :: "string \<Rightarrow> dirent list option"
  stat :: "string \<Rightarrow> st_mode_t option"
  access :: "string \<Rightarrow> bool"
  fopen :: "string \<Rightarrow> 8 word list option"
  malloc_ok :: "nat \<Rightarrow> bool"
  sd_mount_ok :: bool
  i2s_driver_install_ok :: "nat \<Rightarrow> nat \<Rightarrow> bool"
  i2s_set_pin_ok :: bool

definition make_path :: "platform \<Rightarrow> string \<Rightarrow> string \<Rightarrow> string option" where
  "make_path pf dir name =
     (let need = length dir + 1 + length name + 1
      in if malloc_ok pf need then Some (dir @ ''/'' @ name) else None)"

definition tolower :: "char \<Rightarrow> char" where
  "tolower c = (let n = (of_char c :: nat) in if 65 \<le> n \<and> n \<le> 90 then char_of (n + 32) else c)"

definition strcasecmp_eq :: "string \<Rightarrow> string \<Rightarrow> bool" where
  \<comment> \<open>\<^verbatim>\<open>strcasecmp(a, b) == 0\<close>\<close>
  "strcasecmp_eq a b \<longleftrightarrow> map tolower a = map tolower b"

subsection \<open>Globals shared by the three revisions\<close>

datatype nav_state_t = NAV_HOME | NAV_FOLDER_VIEW | NAV_FILE_VIEW

text \<open>
  \<^verbatim>\<open>folder_list\<close> with \<^verbatim>\<open>num_folders\<close> and \<^verbatim>\<open>wav_list\<close> with \<^verbatim>\<open>num_tracks\<close> are lists:
  the count is the length, the slots beyond it are never read.
\<close>

record btn_t =
  last_time :: "32 word"
  last_state :: bool

record player =
  nav_state :: nav_state_t
  g_pause :: bool
  g_playing :: bool
  playing_track :: int
  g_volume_percent :: int
  folder_list :: "string list"
  selected_folder :: int
  wav_list :: "string list"
  current_track :: int
  btn_play :: btn_t
  btn_home :: btn_t
  btn_volp :: btn_t
  btn_volm :: btn_t

abbreviation num_folders :: "'a player_scheme \<Rightarrow> int" where
  "num_folders s \<equiv> int (length (folder_list s))"

abbreviation num_tracks :: "'a player_scheme \<Rightarrow> int" where
  "num_tracks s \<equiv> int (length (wav_list s))"

definition free_folder_list :: "'a player_scheme \<Rightarrow> 'a player_scheme" where
  "free_folder_list s = s\<lparr>folder_list := [], selected_folder := 0\<rparr>"

definition free_wav_list :: "'a player_scheme \<Rightarrow> 'a player_scheme" where
  "free_wav_list s = s\<lparr>wav_list := [], current_track := 0\<rparr>"

subsection \<open>File scanning\<close>

text \<open>
  One round of the \<^verbatim>\<open>while ((entry = readdir(d)) != NULL && found < MAX_FOLDERS)\<close> loop
  per directory entry; \<open>found\<close> is the list of paths stored so far. A failed \<^verbatim>\<open>malloc\<close>
  in \<^verbatim>\<open>make_path\<close> breaks out of the loop.
\<close>

fun scan_root_loop :: "platform \<Rightarrow> string \<Rightarrow> dirent list \<Rightarrow> string list \<Rightarrow> string list" where
  "scan_root_loop pf path [] found = found"
| "scan_root_loop pf path (e # es) found =
     (if \<not> length found < MAX_FOLDERS then found
      else if d_name e = ''.'' \<or> d_name e = ''..'' then scan_root_loop pf path es found
      else if d_type e = DT_DIR then
        (case make_path pf path (d_name e) of
           None \<Rightarrow> found
         | Some full \<Rightarrow> scan_root_loop pf path es (found @ [full]))
      else if d_type e = DT_UNKNOWN then
        (case make_path pf path (d_name e) of
           None \<Rightarrow> found
         | Some full \<Rightarrow>
             if stat pf full = Some S_IFDIR then
               (case make_path pf path (d_name e) of
                  None \<Rightarrow> found
                | Some full' \<Rightarrow> scan_root_loop pf path es (found @ [full']))
             else scan_root_loop pf path es found)
      else scan_root_loop pf path es found)"

definition scan_root_folders :: "platform \<Rightarrow> string \<Rightarrow> 'a player_scheme \<Rightarrow> 'a player_scheme" where
  "scan_root_folders pf path s =
     (let s0 = free_folder_list s
      in case opendir pf path of
           None \<Rightarrow> s0
         | Some es \<Rightarrow> s0\<lparr>folder_list := scan_root_loop pf path es []\<rparr>)"

definition has_wav_ext :: "string \<Rightarrow> bool" where
  \<comment> \<open>\<^verbatim>\<open>n = strlen(name); if (n <= 4) continue; ext = name + (n - 4); !strcasecmp(ext, ".wav")\<close>\<close>
  "has_wav_ext name \<longleftrightarrow>
     \<not> length name \<le> 4 \<and> strcasecmp_eq (drop (length name - 4) name) ''.wav''"

fun scan_wavs_loop :: "platform \<Rightarrow> string \<Rightarrow> dirent list \<Rightarrow> string list \<Rightarrow> string list" where
  "scan_wavs_loop pf path [] found = found"
| "scan_wavs_loop pf path (e # es) found =
     (if \<not> length found < MAX_WAV_FILES then found
      else if d_name e = ''.'' \<or> d_name e = ''..'' then scan_wavs_loop pf path es found
      else
        (case (if d_type e = DT_REG then Some True
               else if d_type e = DT_UNKNOWN then
                 (case make_path pf path (d_name e) of
                    None \<Rightarrow> None
                  | Some full \<Rightarrow> Some (stat pf full = Some S_IFREG))
               else Some False) of
           None \<Rightarrow> found
         | Some is_file \<Rightarrow>
             if \<not> is_file then scan_wavs_loop pf path es found
             else if has_wav_ext (d_name e) then
               (case make_path pf path (d_name e) of
                  None \<Rightarrow> found
                | Some full \<Rightarrow> scan_wavs_loop pf path es (found @ [full]))
             else scan_wavs_loop pf path es found))"

definition scan_wavs_in_folder :: "platform \<Rightarrow> string \<Rightarrow> 'a player_scheme \<Rightarrow> 'a player_scheme" where
  "scan_wavs_in_folder pf path s =
     (let s0 = free_wav_list s
      in case opendir pf path of
           None \<Rightarrow> s0
         | Some es \<Rightarrow> s0\<lparr>wav_list := scan_wavs_loop pf path es []\<rparr>)"

subsection \<open>Paths and names\<close>

fun strrchr :: "char \<Rightarrow> string \<Rightarrow> nat option" where
  \<comment> \<open>the index of the last occurrence, \<open>None\<close> for the NULL result\<close>
  "strrchr c [] = None"
| "strrchr c (x # xs) =
     (case strrchr c xs of
        Some i \<Rightarrow> Some (Suc i)
      | None \<Rightarrow> if x = c then Some 0 else None)"

definition basename :: "string \<Rightarrow> string" where
  \<comment> \<open>\<^verbatim>\<open>b = strrchr(p, '/'); b = b ? b+1 : p;\<close>\<close>
  "basename p = (case strrchr CHR ''/'' p of None \<Rightarrow> p | Some i \<Rightarrow> drop (Suc i) p)"

definition isdigit :: "char \<Rightarrow> bool" where
  "isdigit c \<longleftrightarrow> 48 \<le> (of_char c :: nat) \<and> (of_char c :: nat) \<le> 57"

fun fmt_d :: "nat \<Rightarrow> string" where
  \<comment> \<open>what \<^verbatim>\<open>%d\<close> prints for a value that is not negative\<close>
  "fmt_d n = (if n < 10 then [char_of (48 + n)] else fmt_d (n div 10) @ [char_of (48 + n mod 10)])"

declare fmt_d.simps [simp del]

definition story_number :: "string \<Rightarrow> nat option" where
  \<comment> \<open>\<^verbatim>\<open>if ((b[0]=='S' || b[0]=='s') && isdigit((unsigned char)b[1])) { int n = b[1] - '0';\<close>;
      \<open>b[1]\<close> of a one-character name is the terminating NUL, which is no digit\<close>
  "story_number b =
     (case b of
        c0 # c1 # _ \<Rightarrow>
          if (c0 = CHR ''S'' \<or> c0 = CHR ''s'') \<and> isdigit c1 then Some (of_char c1 - 48) else None
      | _ \<Rightarrow> None)"

definition nth_opt :: "'a list \<Rightarrow> int \<Rightarrow> 'a option" where
  \<comment> \<open>an array read; \<open>None\<close> stands for a read outside the filled part of the array\<close>
  "nth_opt xs i = (if 0 \<le> i \<and> i < int (length xs) then Some (xs ! nat i) else None)"

subsection \<open>The announcement blocks\<close>

text \<open>
  The two blocks below are repeated verbatim in the source wherever a folder or a track
  becomes the selection (encoder step, encoder switch, Play/Pause button); they differ
  between \<^verbatim>\<open>noor_v2\<close> and \<^verbatim>\<open>Noor_RTOS_version\<close> only in the \<^verbatim>\<open>request_announcement\<close>
  they call, which is the parameter \<open>request\<close>. \<^verbatim>\<open>snprintf\<close> into a buffer of
  \<open>k\<close> bytes keeps the first \<open>k - 1\<close> characters.
\<close>

definition announce_stories ::
  "(string option \<Rightarrow> 's \<Rightarrow> 's) \<Rightarrow> platform \<Rightarrow> string \<Rightarrow> 's \<Rightarrow> 's" where
  "announce_stories request pf fp s =
     (let name = basename fp
      in if strcasecmp_eq name ''01'' \<or> strcasecmp_eq name ''stories'' then
           if access pf ''/sdcard/stories.wav'' then request (Some ''/sdcard/stories.wav'') s
           else (case make_path pf fp ''stories.wav'' of
                   None \<Rightarrow> s
                 | Some in_folder \<Rightarrow> if access pf in_folder then request (Some in_folder) s else s)
         else s)"

definition announce_story ::
  "(string option \<Rightarrow> 's \<Rightarrow> 's) \<Rightarrow> platform \<Rightarrow> string \<Rightarrow> 's \<Rightarrow> 's" where
  "announce_story request pf fullname s =
     (case story_number (basename fullname) of
        None \<Rightarrow> s
      | Some n \<Rightarrow>
          let candidate_root = take (ANNOUNCE_PATH_MAX - 1) (''/sdcard/story'' @ fmt_d n @ ''.wav'')
          in if access pf candidate_root then request (Some candidate_root) s
             else (case strrchr CHR ''/'' fullname of
                     None \<Rightarrow> s
                   | Some folder_len \<Rightarrow>
                       if folder_len < ANNOUNCE_PATH_MAX then
                         let folder_dir = take folder_len fullname;
                             storyname = take 31 (''story'' @ fmt_d n @ ''.wav'')
                         in (case make_path pf folder_dir storyname of
                               None \<Rightarrow> s
                             | Some candidate2 \<Rightarrow>
                                 if access pf candidate2 then request (Some candidate2) s else s)
                       else s))"

subsection \<open>The audio task's control point and the trace of its calls\<close>

datatype stream_kind = GREETING | ANNOUNCEMENT | TRACK

datatype stream_error = NOT_FOUND | BAD_HEADER | NOT_16_BIT | INSTALL_FAILED | SET_PIN_FAILED | NO_MEM

text \<open>
  The trace records, in order: the start of a stream (the call of
  \<^verbatim>\<open>stream_file_interruptible\<close>, or of its inlined copy in \<^verbatim>\<open>noor_v1\<close>) with the kind
  of stream and the path; an error report followed by \<^verbatim>\<open>return false\<close>; the three calls
  on the I2S output; the message that the stop flag interrupted the stream; and
  \<^verbatim>\<open>return true\<close>.
\<close>

datatype event =
    STREAM_CALL stream_kind string
  | STREAM_FAIL stream_error
  | I2S_INSTALL
  | I2S_WRITE "8 word list"
  | STREAM_INTERRUPTED
  | I2S_UNINSTALL
  | STREAM_RETURN

text \<open>
  The audio task is either at the top of its outer loop, or at the top of the chunk loop
  of an open stream: the kind and path of the stream, the bytes of the open file, the
  file position, and \<^verbatim>\<open>chunk_bytes\<close>.
\<close>

datatype audio_pc =
    AT_LOOP_TOP
  | IN_STREAM stream_kind string "8 word list" nat nat

record enc_locals =
  last_step_time :: "32 word"
  last_sw_time :: "32 word"

record sys = player +
  enc :: enc_locals
  pc :: audio_pc
  log :: "event list"

record v1 = sys +
  g_stop_and_rewind :: bool
  track_change_request :: bool

record announcer = sys +
  announce_path :: string

record v2 = announcer +
  announce_request :: bool
  g_stop_and_rewind_v2 :: bool
  track_change_request_v2 :: bool

record rtos = announcer +
  stop_flag :: bool
  notify_value :: "32 word"
  notify_pending :: bool
  audio_task_handle :: bool

subsection \<open>Requesting an announcement\<close>

definition strncpy_path :: "string \<Rightarrow> string" where
  \<comment> \<open>\<^verbatim>\<open>strncpy(dst, src, sizeof(dst)-1); dst[sizeof(dst)-1] = '\0';\<close> for a buffer of
      \<^verbatim>\<open>ANNOUNCE_PATH_MAX\<close> bytes\<close>
  "strncpy_path src = take (ANNOUNCE_PATH_MAX - 1) src"

definition request_announcement_v2 :: "string option \<Rightarrow> v2 \<Rightarrow> v2" where
  "request_announcement_v2 path s =
     (case path of
        None \<Rightarrow> s
      | Some p \<Rightarrow> s\<lparr>announce_path := strncpy_path p, announce_request := True\<rparr>)"

definition NOTIFY_ANNOUNCE_BIT :: "32 word" where
  "NOTIFY_ANNOUNCE_BIT = push_bit 31 1"

text \<open>
  FreeRTOS task notifications: \<^verbatim>\<open>xTaskNotify(h, v, eSetBits)\<close> ors \<open>v\<close> into the task's
  notification value, \<^verbatim>\<open>eSetValueWithOverwrite\<close> replaces the value; both mark the
  notification pending.
\<close>

definition request_announcement_rtos :: "string option \<Rightarrow> rtos \<Rightarrow> rtos" where
  "request_announcement_rtos path s =
     (case path of
        None \<Rightarrow> s
      | Some p \<Rightarrow>
          let s1 = s\<lparr>announce_path := strncpy_path p, stop_flag := True\<rparr>
          in if audio_task_handle s1
             then s1\<lparr>notify_value := or (notify_value s1) NOTIFY_ANNOUNCE_BIT, notify_pending := True\<rparr>
             else s1)"

subsection \<open>WAV header and volume scaling\<close>

record wav_info_t =
  sample_rate :: nat
  bits_per_sample :: nat
  channels :: nat
  data_size :: nat
  data_offset :: nat

definition bytes_of :: "string \<Rightarrow> 8 word list" where
  "bytes_of cs = map (\<lambda>c. of_nat (of_char c)) cs"

definition le16 :: "8 word list \<Rightarrow> nat \<Rightarrow> nat" where
  "le16 h i = unat (h ! i) + 256 * unat (h ! (i + 1))"

definition le32 :: "8 word list \<Rightarrow> nat \<Rightarrow> nat" where
  "le32 h i = le16 h i + 65536 * le16 h (i + 2)"

definition parse_wav_header :: "8 word list \<Rightarrow> wav_info_t option" where
  "parse_wav_header file =
     (let header = take 44 file
      in if length header \<noteq> 44 then None
         else if take 4 header \<noteq> bytes_of ''RIFF'' \<or> take 4 (drop 8 header) \<noteq> bytes_of ''WAVE''
           then None
         else Some \<lparr>sample_rate = le32 header 24, bits_per_sample = le16 header 34,
                    channels = le16 header 22, data_size = le32 header 40, data_offset = 44\<rparr>)"

definition sample_of :: "8 word \<Rightarrow> 8 word \<Rightarrow> int" where
  \<comment> \<open>the little-endian \<^verbatim>\<open>int16_t\<close> at two consecutive bytes of the buffer\<close>
  "sample_of lo hi = int16_of (uint lo + 256 * uint hi)"

fun scale_bytes :: "int \<Rightarrow> 8 word list \<Rightarrow> 8 word list" where
  \<comment> \<open>\<^verbatim>\<open>ns = bytes_read / 2\<close> samples are scaled in place; an odd last byte is left as read\<close>
  "scale_bytes vol (lo # hi # bs) =
     (let s' = scale_sample vol (sample_of lo hi)
      in word_of_int s' # word_of_int (s' div 256) # scale_bytes vol bs)"
| "scale_bytes vol bs = bs"

subsection \<open>Streaming a file: \<^verbatim>\<open>stream_file_interruptible\<close>\<close>

datatype open_result =
    OPEN_FAILED "event list"
  | OPENED "event list" "8 word list" nat nat

text \<open>
  From the entry of \<^verbatim>\<open>stream_file_interruptible\<close> to the top of its chunk loop. Every
  early \<^verbatim>\<open>return false\<close> is a branch; the ones after \<^verbatim>\<open>i2s_driver_install\<close> succeeded
  uninstall the driver first. \<^verbatim>\<open>noor_v1\<close> has the same statements inline in its
  \<^verbatim>\<open>audio_task\<close>, with \<^verbatim>\<open>continue\<close> in place of \<^verbatim>\<open>return false\<close>.
\<close>

definition stream_open :: "platform \<Rightarrow> stream_kind \<Rightarrow> string \<Rightarrow> open_result" where
  "stream_open pf k fullpath =
     (case fopen pf fullpath of
        None \<Rightarrow> OPEN_FAILED [STREAM_CALL k fullpath, STREAM_FAIL NOT_FOUND]
      | Some file \<Rightarrow>
          (case parse_wav_header file of
             None \<Rightarrow> OPEN_FAILED [STREAM_CALL k fullpath, STREAM_FAIL BAD_HEADER]
           | Some winfo \<Rightarrow>
               if bits_per_sample winfo \<noteq> 16
                 then OPEN_FAILED [STREAM_CALL k fullpath, STREAM_FAIL NOT_16_BIT]
               else if \<not> i2s_driver_install_ok pf (sample_rate winfo) (channels winfo)
                 then OPEN_FAILED [STREAM_CALL k fullpath, STREAM_FAIL INSTALL_FAILED]
               else if \<not> i2s_set_pin_ok pf
                 then OPEN_FAILED [STREAM_CALL k fullpath, I2S_INSTALL, I2S_UNINSTALL,
                                   STREAM_FAIL SET_PIN_FAILED]
               else
                 let chunk_bytes = 1024 * (bits_per_sample winfo div 8) * channels winfo
                 in if \<not> malloc_ok pf chunk_bytes
                      then OPEN_FAILED [STREAM_CALL k fullpath, I2S_INSTALL, I2S_UNINSTALL,
                                        STREAM_FAIL NO_MEM]
                    else OPENED [STREAM_CALL k fullpath, I2S_INSTALL] file (data_offset winfo)
                           chunk_bytes))"

datatype iter_result =
    ITER_BREAK
  | ITER_PAUSED
  | ITER_EOF
  | ITER_WRITE "8 word list" nat

text \<open>
  One round of the chunk loop of \<^verbatim>\<open>stream_file_interruptible\<close>: \<open>stop\<close> is
  \<^verbatim>\<open>stop_flag_ptr && *stop_flag_ptr\<close> and \<open>paused\<close> is \<^verbatim>\<open>pause_flag_ptr && *pause_flag_ptr\<close>
  as read in this round (\<^verbatim>\<open>noor_v2\<close> has no pause test: \<open>paused\<close> is \<open>False\<close> there).
  \<^verbatim>\<open>fread\<close> returns the next \<^verbatim>\<open>chunk_bytes\<close> bytes, fewer at the end of the file.
\<close>

definition stream_iter :: "bool \<Rightarrow> bool \<Rightarrow> int \<Rightarrow> 8 word list \<Rightarrow> nat \<Rightarrow> nat \<Rightarrow> iter_result" where
  "stream_iter stop paused vol file pos chunk_bytes =
     (if stop then ITER_BREAK
      else if paused then ITER_PAUSED
      else
        let buf = take chunk_bytes (drop pos file)
        in if length buf = 0 then ITER_EOF
           else ITER_WRITE (if vol \<noteq> 100 then scale_bytes vol buf else buf) (pos + length buf))"

definition start_stream ::
  "(stream_kind \<Rightarrow> 'a sys_scheme \<Rightarrow> 'a sys_scheme) \<Rightarrow> platform \<Rightarrow> stream_kind \<Rightarrow> string \<Rightarrow>
     'a sys_scheme \<Rightarrow> 'a sys_scheme" where
  \<comment> \<open>the call of \<^verbatim>\<open>stream_file_interruptible\<close> up to its chunk loop; \<open>returned\<close> is what the
      caller does once the call has returned\<close>
  "start_stream returned pf k path s =
     (case stream_open pf k path of
        OPEN_FAILED evs \<Rightarrow> returned k (s\<lparr>log := log s @ evs\<rparr>)
      | OPENED evs file pos n \<Rightarrow> s\<lparr>log := log s @ evs, pc := IN_STREAM k path file pos n\<rparr>)"

definition stream_step ::
  "(stream_kind \<Rightarrow> 'a sys_scheme \<Rightarrow> 'a sys_scheme) \<Rightarrow> bool \<Rightarrow> bool \<Rightarrow>
     'a sys_scheme \<Rightarrow> 'a sys_scheme" where
  \<comment> \<open>one round of the chunk loop of the open stream; leaving the loop runs
      \<^verbatim>\<open>free(buf); fclose(f); i2s_driver_uninstall(I2S_NUM_0); return true;\<close> and then the caller\<close>
  "stream_step returned stop paused s =
     (case pc s of
        AT_LOOP_TOP \<Rightarrow> s
      | IN_STREAM k path file pos n \<Rightarrow>
          (case stream_iter stop paused (g_volume_percent s) file pos n of
             ITER_BREAK \<Rightarrow>
               returned k (s\<lparr>log := log s @ [STREAM_INTERRUPTED, I2S_UNINSTALL, STREAM_RETURN],
                              pc := AT_LOOP_TOP\<rparr>)
           | ITER_PAUSED \<Rightarrow> s
           | ITER_EOF \<Rightarrow>
               returned k (s\<lparr>log := log s @ [I2S_UNINSTALL, STREAM_RETURN], pc := AT_LOOP_TOP\<rparr>)
           | ITER_WRITE bytes pos' \<Rightarrow>
               s\<lparr>log := log s @ [I2S_WRITE bytes], pc := IN_STREAM k path file pos' n\<rparr>))"

text \<open>
  The boot greetings are streamed with both flag pointers \<^verbatim>\<open>NULL\<close>, before the tasks
  exist: the chunk loop runs to the end of the file.
\<close>

function stream_loop_greeting :: "int \<Rightarrow> 8 word list \<Rightarrow> nat \<Rightarrow> nat \<Rightarrow> event list" where
  "stream_loop_greeting vol file pos n =
     (case stream_iter False False vol file pos n of
        ITER_WRITE bytes pos' \<Rightarrow> I2S_WRITE bytes # stream_loop_greeting vol file pos' n
      | _ \<Rightarrow> [])"
  by pat_completeness auto
termination
  by (relation "measure (\<lambda>(vol, file, pos, n). length file - pos)")
     (auto simp: stream_iter_def Let_def split: if_splits)

declare stream_loop_greeting.simps [simp del]

definition stream_greeting :: "platform \<Rightarrow> string \<Rightarrow> 'a sys_scheme \<Rightarrow> 'a sys_scheme" where
  "stream_greeting pf path s =
     (case stream_open pf GREETING path of
        OPEN_FAILED evs \<Rightarrow> s\<lparr>log := log s @ evs\<rparr>
      | OPENED evs file pos n \<Rightarrow>
          s\<lparr>log := log s @ evs @ stream_loop_greeting (g_volume_percent s) file pos n
                   @ [I2S_UNINSTALL, STREAM_RETURN]\<rparr>)"

subsection \<open>The audio task of \<^verbatim>\<open>Noor_RTOS_version\<close>\<close>

definition after_track_rtos :: "rtos \<Rightarrow> rtos" where
  \<comment> \<open>the statements after the track's stream call: both branches of \<^verbatim>\<open>if (stop_flag)\<close>
      clear the playing state\<close>
  "after_track_rtos s =
     (if stop_flag s then s\<lparr>g_playing := False, playing_track := - 1\<rparr>
      else s\<lparr>g_playing := False, playing_track := - 1\<rparr>)"

definition stream_returned_rtos :: "stream_kind \<Rightarrow> rtos \<Rightarrow> rtos" where
  \<comment> \<open>the return value of the stream call is not looked at\<close>
  "stream_returned_rtos k s =
     (let s' = s\<lparr>pc := AT_LOOP_TOP\<rparr> in if k = TRACK then after_track_rtos s' else s')"

text \<open>
  At the top of its loop \<^verbatim>\<open>audio_task\<close> is blocked in
  \<^verbatim>\<open>xTaskNotifyWait(0, 0xFFFFFFFF, &val, portMAX_DELAY)\<close> until a notification is
  pending; the call returns the notification value in \<^verbatim>\<open>val\<close>, clears the value and
  the pending mark. The rest of the loop body works on \<^verbatim>\<open>val\<close>: that part is
  \<open>audio_dispatch_rtos\<close>, from the test of the announce bit up to the chunk loop of the
  stream it starts. The two parts are separate definitions because another task can run
  between them.
\<close>

definition notify_taken_rtos :: "rtos \<Rightarrow> rtos" where
  \<comment> \<open>the globals when \<^verbatim>\<open>xTaskNotifyWait\<close> has returned\<close>
  "notify_taken_rtos s = s\<lparr>notify_value := 0, notify_pending := False\<rparr>"

definition audio_dispatch_rtos :: "platform \<Rightarrow> 32 word \<Rightarrow> rtos \<Rightarrow> rtos" where
  "audio_dispatch_rtos pf val s1 =
     (if and val NOTIFY_ANNOUNCE_BIT \<noteq> 0 then
        let local_ann = strncpy_path (announce_path s1);
            s2 = s1\<lparr>stop_flag := False\<rparr>
        in start_stream stream_returned_rtos pf ANNOUNCEMENT local_ann s2
      else if val \<noteq> 0 then
        let idx = sint val - 1
        in if idx < 0 \<or> idx \<ge> num_tracks s1 then s1
           else
             let s2 = s1\<lparr>stop_flag := False, playing_track := idx, g_playing := True,
                          g_pause := False\<rparr>
             in start_stream stream_returned_rtos pf TRACK (wav_list s2 ! nat idx) s2
      else s1)"

text \<open>
  One step of \<^verbatim>\<open>audio_task\<close>. At the top of its loop, with a notification pending, the
  step takes the value and runs the loop body up to the chunk loop of the stream it
  starts, with nothing in between; without a notification the task stays blocked. Inside
  a stream a step is one round of the chunk loop.
\<close>

definition audio_step_rtos :: "platform \<Rightarrow> rtos \<Rightarrow> rtos" where
  "audio_step_rtos pf s =
     (case pc s of
        AT_LOOP_TOP \<Rightarrow>
          if \<not> notify_pending s then s
          else audio_dispatch_rtos pf (notify_value s) (notify_taken_rtos s)
      | IN_STREAM k path file pos n \<Rightarrow>
          stream_step stream_returned_rtos (k \<noteq> GREETING \<and> stop_flag s) (k = TRACK \<and> g_pause s) s)"

subsection \<open>The audio task of \<^verbatim>\<open>noor_v2\<close>\<close>

definition stream_returned_v2 :: "stream_kind \<Rightarrow> v2 \<Rightarrow> v2" where
  \<comment> \<open>after an announcement: \<^verbatim>\<open>continue\<close>; after a track:
      \<^verbatim>\<open>if (announce_request) { g_playing = false; playing_track = -1; continue; }\<close>\<close>
  "stream_returned_v2 k s =
     (let s' = s\<lparr>pc := AT_LOOP_TOP\<rparr>
      in if k = TRACK \<and> announce_request s' then s'\<lparr>g_playing := False, playing_track := - 1\<rparr>
         else s')"

definition audio_step_v2 :: "platform \<Rightarrow> v2 \<Rightarrow> v2" where
  "audio_step_v2 pf s =
     (case pc s of
        AT_LOOP_TOP \<Rightarrow>
          if announce_request s then
            let local_ann = strncpy_path (announce_path s);
                s1 = s\<lparr>announce_request := False, track_change_request_v2 := False,
                       g_playing := False\<rparr>
            in start_stream stream_returned_v2 pf ANNOUNCEMENT local_ann s1
          else if g_playing s then
            if nav_state s \<noteq> NAV_FILE_VIEW then s\<lparr>g_playing := False, playing_track := - 1\<rparr>
            else if num_tracks s = 0 then s\<lparr>g_playing := False\<rparr>
            else
              let idx = playing_track s
              in if idx < 0 \<or> idx \<ge> num_tracks s then s\<lparr>g_playing := False, playing_track := - 1\<rparr>
                 else start_stream stream_returned_v2 pf TRACK (wav_list s ! nat idx) s
          else s
      | IN_STREAM k path file pos n \<Rightarrow>
          stream_step stream_returned_v2 (k \<noteq> GREETING \<and> announce_request s) False s)"

subsection \<open>The audio task of \<^verbatim>\<open>noor_v1\<close>\<close>

definition WAV_DATA_OFFSET :: nat where "WAV_DATA_OFFSET = 44"

definition end_stream_v1 :: "v1 \<Rightarrow> v1" where
  \<comment> \<open>\<^verbatim>\<open>free(read_buf); fclose(f); i2s_driver_uninstall(I2S_NUM_0);\<close> and back to the outer loop\<close>
  "end_stream_v1 s = s\<lparr>log := log s @ [I2S_UNINSTALL, STREAM_RETURN], pc := AT_LOOP_TOP\<rparr>"

definition audio_step_v1 :: "platform \<Rightarrow> v1 \<Rightarrow> v1" where
  "audio_step_v1 pf s =
     (case pc s of
        AT_LOOP_TOP \<Rightarrow>
          if \<not> g_playing s then s
          else if nav_state s \<noteq> NAV_FILE_VIEW then s\<lparr>g_playing := False, playing_track := - 1\<rparr>
          else if num_tracks s = 0 then s
          else
            let idx = playing_track s
            in if idx < 0 \<or> idx \<ge> num_tracks s then s\<lparr>g_playing := False, playing_track := - 1\<rparr>
               else
                 let filename = wav_list s ! nat idx
                 in (case stream_open pf TRACK filename of
                       OPEN_FAILED evs \<Rightarrow> s\<lparr>log := log s @ evs\<rparr>
                     | OPENED evs file pos n \<Rightarrow>
                         s\<lparr>log := log s @ evs, pc := IN_STREAM TRACK filename file pos n\<rparr>)
      | IN_STREAM k path file pos n \<Rightarrow>
          if \<not> g_playing s then end_stream_v1 s
          else if track_change_request s then end_stream_v1 (s\<lparr>track_change_request := False\<rparr>)
          else
            let rewind = g_stop_and_rewind s;
                s1 = (if rewind then s\<lparr>g_stop_and_rewind := False\<rparr> else s);
                pos1 = (if rewind then WAV_DATA_OFFSET else pos)
            in if g_pause s1 then s1\<lparr>pc := IN_STREAM k path file pos1 n\<rparr>
               else
                 let read_buf = take n (drop pos1 file)
                 in if length read_buf = 0 then s1\<lparr>pc := IN_STREAM k path file WAV_DATA_OFFSET n\<rparr>
                    else
                      let out = (if g_volume_percent s1 \<noteq> 100
                                 then scale_bytes (g_volume_percent s1) read_buf else read_buf)
                      in s1\<lparr>log := log s1 @ [I2S_WRITE out],
                             pc := IN_STREAM k path file (pos1 + length read_buf) n\<rparr>)"

subsection \<open>Buttons and volume\<close>

definition read_button_press :: "bool \<Rightarrow> 32 word \<Rightarrow> btn_t \<Rightarrow> bool \<times> btn_t" where
  \<comment> \<open>\<open>lvl\<close> is the pin level and \<open>t\<close> the tick time in ms read by this call\<close>
  "read_button_press lvl t b =
     (if lvl \<and> \<not> last_state b \<and> t - last_time b > DEBOUNCE_MS
      then (True, b\<lparr>last_time := t, last_state := lvl\<rparr>)
      else (False, b\<lparr>last_state := lvl\<rparr>))"

definition vol_up :: "'a player_scheme \<Rightarrow> 'a player_scheme" where
  \<comment> \<open>\<^verbatim>\<open>g_volume_percent += 10; if (g_volume_percent > 200) g_volume_percent = 200;\<close>\<close>
  "vol_up s =
     (let s1 = s\<lparr>g_volume_percent := int32_of (g_volume_percent s + 10)\<rparr>
      in if g_volume_percent s1 > 200 then s1\<lparr>g_volume_percent := 200\<rparr> else s1)"

definition vol_down :: "'a player_scheme \<Rightarrow> 'a player_scheme" where
  \<comment> \<open>\<^verbatim>\<open>g_volume_percent -= 10; if (g_volume_percent < 0) g_volume_percent = 0;\<close>\<close>
  "vol_down s =
     (let s1 = s\<lparr>g_volume_percent := int32_of (g_volume_percent s - 10)\<rparr>
      in if g_volume_percent s1 < 0 then s1\<lparr>g_volume_percent := 0\<rparr> else s1)"

subsection \<open>The encoder task\<close>

datatype enc_evt_type_t = ENC_EVT_CLK | ENC_EVT_SW

record enc_evt_t =
  evt_type :: enc_evt_type_t
  dt_level :: nat

text \<open>
  One received event of \<^verbatim>\<open>encoder_task\<close>; \<open>now\<close> is the tick time in ms read after
  \<^verbatim>\<open>xQueueReceive\<close> returned. The debounce tests and the two local timers are the same in
  the three revisions; what an accepted step and an accepted switch press do differs and
  is the parameters \<open>on_clk\<close> and \<open>on_sw\<close>. A handler returns \<open>None\<close> when it reads an
  array outside its filled part.
\<close>

definition encoder_iter ::
  "(nat \<Rightarrow> 's \<Rightarrow> 's option) \<Rightarrow> ('s \<Rightarrow> 's option) \<Rightarrow> 32 word \<Rightarrow> enc_evt_t \<Rightarrow>
     enc_locals \<times> 's \<Rightarrow> (enc_locals \<times> 's) option" where
  "encoder_iter on_clk on_sw now ev ls =
     (case ls of (l, s) \<Rightarrow>
        (case evt_type ev of
           ENC_EVT_CLK \<Rightarrow>
             if now - last_step_time l < ENC_STEP_DEBOUNCE_MS then Some (l, s)
             else map_option (Pair (l\<lparr>last_step_time := now\<rparr>)) (on_clk (dt_level ev) s)
         | ENC_EVT_SW \<Rightarrow>
             if now - last_sw_time l < DEBOUNCE_MS then Some (l, s)
             else map_option (Pair (l\<lparr>last_sw_time := now\<rparr>)) (on_sw s)))"

fun encoder_task ::
  "(nat \<Rightarrow> 's \<Rightarrow> 's option) \<Rightarrow> ('s \<Rightarrow> 's option) \<Rightarrow> (32 word \<times> enc_evt_t) list \<Rightarrow>
     enc_locals \<times> 's \<Rightarrow> (enc_locals \<times> 's) option" where
  \<comment> \<open>the task's loop over the events it receives, each with its receive time\<close>
  "encoder_task on_clk on_sw [] ls = Some ls"
| "encoder_task on_clk on_sw ((now, ev) # evs) ls =
     (case encoder_iter on_clk on_sw now ev ls of
        None \<Rightarrow> None
      | Some ls' \<Rightarrow> encoder_task on_clk on_sw evs ls')"

subsection \<open>Input handling of \<^verbatim>\<open>Noor_RTOS_version\<close>\<close>

definition notify_play_rtos :: "rtos \<Rightarrow> rtos" where
  \<comment> \<open>\<^verbatim>\<open>if (audio_task_handle) xTaskNotify(audio_task_handle, (uint32_t)(current_track + 1),
      eSetValueWithOverwrite);\<close>\<close>
  "notify_play_rtos s =
     (if audio_task_handle s
      then s\<lparr>notify_value := word_of_int (current_track s + 1), notify_pending := True\<rparr>
      else s)"

definition file_view_play_rtos :: "rtos \<Rightarrow> rtos" where
  \<comment> \<open>the \<^verbatim>\<open>NAV_FILE_VIEW\<close> branch of the Play/Pause button and of the encoder switch\<close>
  "file_view_play_rtos s =
     (if \<not> g_playing s then
        if num_tracks s > 0
        then notify_play_rtos (s\<lparr>playing_track := current_track s, g_playing := True,
                                 g_pause := False, stop_flag := True\<rparr>)
        else s
      else if playing_track s = current_track s then s\<lparr>g_pause := \<not> g_pause s\<rparr>
      else notify_play_rtos (s\<lparr>playing_track := current_track s, g_pause := False,
                               stop_flag := True\<rparr>))"

definition enter_folder_rtos :: "platform \<Rightarrow> rtos \<Rightarrow> rtos option" where
  \<comment> \<open>the \<^verbatim>\<open>NAV_FOLDER_VIEW\<close> branch, inside \<^verbatim>\<open>if (num_folders > 0)\<close>\<close>
  "enter_folder_rtos pf s =
     (case nth_opt (folder_list s) (selected_folder s) of
        None \<Rightarrow> None
      | Some folder_path \<Rightarrow>
          let s1 = announce_stories request_announcement_rtos pf folder_path s;
              s2 = scan_wavs_in_folder pf folder_path s1;
              s3 = s2\<lparr>nav_state := NAV_FILE_VIEW, current_track := 0, playing_track := - 1,
                      g_playing := False, g_pause := False\<rparr>
          in if num_tracks s3 > 0 then
               (case nth_opt (wav_list s3) (current_track s3) of
                  None \<Rightarrow> None
                | Some fullname \<Rightarrow> Some (announce_story request_announcement_rtos pf fullname s3))
             else Some s3)"

definition play_pause_rtos :: "platform \<Rightarrow> rtos \<Rightarrow> rtos option" where
  "play_pause_rtos pf s =
     (case nav_state s of
        NAV_HOME \<Rightarrow> if num_folders s > 0 then Some (s\<lparr>nav_state := NAV_FOLDER_VIEW\<rparr>) else Some s
      | NAV_FOLDER_VIEW \<Rightarrow> if num_folders s > 0 then enter_folder_rtos pf s else Some s
      | NAV_FILE_VIEW \<Rightarrow> Some (file_view_play_rtos s))"

definition enc_sw_rtos :: "platform \<Rightarrow> rtos \<Rightarrow> rtos option" where
  "enc_sw_rtos pf s =
     (case nav_state s of
        NAV_FILE_VIEW \<Rightarrow> Some (file_view_play_rtos s)
      | NAV_FOLDER_VIEW \<Rightarrow> if num_folders s > 0 then enter_folder_rtos pf s else Some s
      | NAV_HOME \<Rightarrow> if num_folders s > 0 then Some (s\<lparr>nav_state := NAV_FOLDER_VIEW\<rparr>) else Some s)"

definition enc_clk_rtos :: "platform \<Rightarrow> nat \<Rightarrow> rtos \<Rightarrow> rtos option" where
  \<comment> \<open>an accepted encoder step; C's \<^verbatim>\<open>%\<close> truncates towards zero\<close>
  "enc_clk_rtos pf dt s =
     (if nav_state s = NAV_HOME \<or> nav_state s = NAV_FOLDER_VIEW then
        if num_folders s > 0 then
          let sel = (if dt = 0 then (selected_folder s + 1) smod num_folders s
                     else (selected_folder s - 1 + num_folders s) smod num_folders s);
              s1 = s\<lparr>selected_folder := sel\<rparr>
          in (case nth_opt (folder_list s1) (selected_folder s1) of
                None \<Rightarrow> None
              | Some fp \<Rightarrow> Some (announce_stories request_announcement_rtos pf fp s1))
        else Some s
      else
        if num_tracks s > 0 then
          let cur = (if dt = 0 then (current_track s + 1) smod num_tracks s
                     else (current_track s - 1 + num_tracks s) smod num_tracks s);
              s1 = s\<lparr>current_track := cur\<rparr>
          in (case nth_opt (wav_list s1) (current_track s1) of
                None \<Rightarrow> None
              | Some fullname \<Rightarrow> Some (announce_story request_announcement_rtos pf fullname s1))
        else Some s)"

definition home_rtos :: "platform \<Rightarrow> rtos \<Rightarrow> rtos" where
  "home_rtos pf s =
     (case nav_state s of
        NAV_FILE_VIEW \<Rightarrow>
          let s1 = (if g_playing s then s\<lparr>g_playing := False, g_pause := False, stop_flag := True\<rparr>
                    else s)
          in (free_wav_list s1)\<lparr>nav_state := NAV_FOLDER_VIEW\<rparr>
      | NAV_FOLDER_VIEW \<Rightarrow>
          let s1 = s\<lparr>nav_state := NAV_HOME\<rparr>
          in if access pf ''/sdcard/home.wav''
             then request_announcement_rtos (Some ''/sdcard/home.wav'') s1 else s1
      | NAV_HOME \<Rightarrow> s)"

record main_in =
  lvl_play :: bool
  t_play :: "32 word"
  lvl_home :: bool
  t_home :: "32 word"
  lvl_volp :: bool
  t_volp :: "32 word"
  lvl_volm :: bool
  t_volm :: "32 word"

definition main_loop_rtos :: "platform \<Rightarrow> main_in \<Rightarrow> rtos \<Rightarrow> rtos option" where
  \<comment> \<open>one round of the \<^verbatim>\<open>while (1)\<close> of \<^verbatim>\<open>app_main\<close>: the four buttons in turn, each with
      the pin level and tick time its \<^verbatim>\<open>read_button_press\<close> reads\<close>
  "main_loop_rtos pf inp s =
     (let r1 = read_button_press (lvl_play inp) (t_play inp) (btn_play s);
          s1 = s\<lparr>btn_play := snd r1\<rparr>
      in case (if fst r1 then play_pause_rtos pf s1 else Some s1) of
           None \<Rightarrow> None
         | Some s2 \<Rightarrow>
             let r2 = read_button_press (lvl_home inp) (t_home inp) (btn_home s2);
                 s3 = s2\<lparr>btn_home := snd r2\<rparr>;
                 s4 = (if fst r2 then home_rtos pf s3 else s3);
                 r3 = read_button_press (lvl_volp inp) (t_volp inp) (btn_volp s4);
                 s5 = s4\<lparr>btn_volp := snd r3\<rparr>;
                 s6 = (if fst r3 then vol_up s5 else s5);
                 r4 = read_button_press (lvl_volm inp) (t_volm inp) (btn_volm s6);
                 s7 = s6\<lparr>btn_volm := snd r4\<rparr>;
                 s8 = (if fst r4 then vol_down s7 else s7)
             in Some s8)"

subsection \<open>Boot of \<^verbatim>\<open>Noor_RTOS_version\<close>\<close>

fun default_folder_loop :: "string list \<Rightarrow> int \<Rightarrow> int \<Rightarrow> int" where
  \<comment> \<open>the \<^verbatim>\<open>for\<close> loop over \<^verbatim>\<open>folder_list\<close> from index \<open>i\<close> with the current \<^verbatim>\<open>found_idx\<close>\<close>
  "default_folder_loop [] i found_idx = found_idx"
| "default_folder_loop (p # ps) i found_idx =
     (if strcasecmp_eq (basename p) ''01'' then i
      else if found_idx < 0 \<and> strcasecmp_eq (basename p) ''audios''
        then default_folder_loop ps (i + 1) i
      else default_folder_loop ps (i + 1) found_idx)"

definition initial_rtos :: rtos where
  "initial_rtos =
     \<lparr>nav_state = NAV_HOME, g_pause = False, g_playing = False, playing_track = - 1,
      g_volume_percent = 100, folder_list = [], selected_folder = 0, wav_list = [],
      current_track = 0,
      btn_play = \<lparr>last_time = 0, last_state = False\<rparr>,
      btn_home = \<lparr>last_time = 0, last_state = False\<rparr>,
      btn_volp = \<lparr>last_time = 0, last_state = False\<rparr>,
      btn_volm = \<lparr>last_time = 0, last_state = False\<rparr>,
      enc = \<lparr>last_step_time = 0, last_sw_time = 0\<rparr>, pc = AT_LOOP_TOP, log = [],
      announce_path = [], stop_flag = False, notify_value = 0, notify_pending = False,
      audio_task_handle = False\<rparr>"

definition app_main_boot_rtos :: "platform \<Rightarrow> rtos" where
  \<comment> \<open>\<^verbatim>\<open>app_main\<close> from its entry to the creation of the two tasks\<close>
  "app_main_boot_rtos pf =
     (let s0 = initial_rtos;
          s4 = (if \<not> sd_mount_ok pf then s0
                else
                  let s1 = scan_root_folders pf ''/sdcard'' s0;
                      s2 = (if num_folders s1 > 0 then
                              let found_idx = default_folder_loop (folder_list s1) 0 (- 1)
                              in s1\<lparr>selected_folder := (if found_idx \<ge> 0 then found_idx else 0)\<rparr>
                            else s1);
                      s3 = (if access pf ''/sdcard/welcome.wav''
                            then stream_greeting pf ''/sdcard/welcome.wav'' s2 else s2)
                  in if access pf ''/sdcard/home.wav''
                     then stream_greeting pf ''/sdcard/home.wav'' s3 else s3)
      in s4\<lparr>audio_task_handle := True\<rparr>)"

subsection \<open>The three tasks of \<^verbatim>\<open>Noor_RTOS_version\<close> together\<close>

text \<open>
  The tasks interleave; a step of the system is one round of the main loop with its
  button readings, or the handling of one encoder event, or one step of the audio task.
  (Interleavings inside one such step are not represented.)
\<close>

datatype input =
    MAIN_LOOP main_in
  | ENCODER "32 word" enc_evt_t
  | AUDIO

definition sys_step_rtos :: "platform \<Rightarrow> input \<Rightarrow> rtos \<Rightarrow> rtos option" where
  "sys_step_rtos pf i s =
     (case i of
        MAIN_LOOP inp \<Rightarrow> main_loop_rtos pf inp s
      | ENCODER now ev \<Rightarrow>
          (case encoder_iter (enc_clk_rtos pf) (enc_sw_rtos pf) now ev (enc s, s) of
             None \<Rightarrow> None
           | Some (l, s') \<Rightarrow> Some (s'\<lparr>enc := l\<rparr>))
      | AUDIO \<Rightarrow> Some (audio_step_rtos pf s))"

fun run_rtos :: "platform \<Rightarrow> rtos \<Rightarrow> input list \<Rightarrow> rtos option" where
  "run_rtos pf s [] = Some s"
| "run_rtos pf s (i # is) =
     (case sys_step_rtos pf i s of None \<Rightarrow> None | Some s' \<Rightarrow> run_rtos pf s' is)"

subsection \<open>Play/Pause in \<^verbatim>\<open>noor_v1\<close>\<close>

definition file_view_play_v1 :: "v1 \<Rightarrow> v1" where
  "file_view_play_v1 s =
     (if \<not> g_playing s then
        if num_tracks s > 0
        then s\<lparr>playing_track := current_track s, g_playing := True, g_pause := False,
               track_change_request := True\<rparr>
        else s
      else if playing_track s = current_track s then s\<lparr>g_pause := \<not> g_pause s\<rparr>
      else s\<lparr>playing_track := current_track s, g_pause := False, track_change_request := True\<rparr>)"

definition enter_folder_v1 :: "platform \<Rightarrow> v1 \<Rightarrow> v1 option" where
  "enter_folder_v1 pf s =
     (case nth_opt (folder_list s) (selected_folder s) of
        None \<Rightarrow> None
      | Some fp \<Rightarrow>
          Some ((scan_wavs_in_folder pf fp s)\<lparr>nav_state := NAV_FILE_VIEW, current_track := 0,
                  playing_track := - 1, g_playing := False, g_pause := False\<rparr>))"

definition play_pause_v1 :: "platform \<Rightarrow> v1 \<Rightarrow> v1 option" where
  "play_pause_v1 pf s =
     (case nav_state s of
        NAV_HOME \<Rightarrow> if num_folders s > 0 then Some (s\<lparr>nav_state := NAV_FOLDER_VIEW\<rparr>) else Some s
      | NAV_FOLDER_VIEW \<Rightarrow> if num_folders s > 0 then enter_folder_v1 pf s else Some s
      | NAV_FILE_VIEW \<Rightarrow> Some (file_view_play_v1 s))"

definition enc_sw_v1 :: "platform \<Rightarrow> v1 \<Rightarrow> v1 option" where
  "enc_sw_v1 pf s =
     (case nav_state s of
        NAV_FILE_VIEW \<Rightarrow> Some (file_view_play_v1 s)
      | NAV_FOLDER_VIEW \<Rightarrow> if num_folders s > 0 then enter_folder_v1 pf s else Some s
      | NAV_HOME \<Rightarrow> if num_folders s > 0 then Some (s\<lparr>nav_state := NAV_FOLDER_VIEW\<rparr>) else Some s)"

subsection \<open>Properties of traces\<close>

fun i2s_exclusive :: "bool \<Rightarrow> event list \<Rightarrow> bool" where
  \<comment> \<open>\<open>i2s_exclusive busy evs\<close>: starting with the output installed or not (\<open>busy\<close>), no
      install happens while it is installed, and every write and uninstall happens while
      it is installed\<close>
  "i2s_exclusive busy [] = True"
| "i2s_exclusive busy (I2S_INSTALL # evs) = (\<not> busy \<and> i2s_exclusive True evs)"
| "i2s_exclusive busy (I2S_WRITE bytes # evs) = (busy \<and> i2s_exclusive True evs)"
| "i2s_exclusive busy (I2S_UNINSTALL # evs) = (busy \<and> i2s_exclusive False evs)"
| "i2s_exclusive busy (ev # evs) = i2s_exclusive busy evs"

fun i2s_busy :: "bool \<Rightarrow> event list \<Rightarrow> bool" where
  \<comment> \<open>whether the output is installed after the events\<close>
  "i2s_busy busy [] = busy"
| "i2s_busy busy (I2S_INSTALL # evs) = i2s_busy True evs"
| "i2s_busy busy (I2S_UNINSTALL # evs) = i2s_busy False evs"
| "i2s_busy busy (ev # evs) = i2s_busy busy evs"

subsection \<open>Notions used in the statements\<close>


definition audio_inv :: "'a sys_scheme \<Rightarrow> bool" where
  \<comment> \<open>the trace never overlaps two uses of the output, and the output is installed exactly
      while the audio task is inside a stream\<close>
  "audio_inv s \<longleftrightarrow> i2s_exclusive False (log s) \<and> (i2s_busy False (log s) \<longleftrightarrow> pc s \<noteq> AT_LOOP_TOP)"

definition new_events :: "'a sys_scheme \<Rightarrow> 'a sys_scheme \<Rightarrow> event list" where
  \<comment> \<open>what a step from \<open>s\<close> to \<open>s'\<close> added to the trace\<close>
  "new_events s s' = drop (length (log s)) (log s')"

definition plays_track :: "audio_pc \<Rightarrow> event list \<Rightarrow> bool" where
  \<comment> \<open>the events of a step taken at control point \<open>c\<close> start a track stream, or write a
      chunk of an open track stream\<close>
  "plays_track c evs \<longleftrightarrow>
     list_ex (\<lambda>e. case e of
                 STREAM_CALL k p \<Rightarrow> k = TRACK
               | I2S_WRITE b \<Rightarrow> (case c of IN_STREAM k p fl pos n \<Rightarrow> k = TRACK | AT_LOOP_TOP \<Rightarrow> False)
               | _ \<Rightarrow> False) evs"

definition count_steps :: "(32 word \<times> enc_evt_t) list \<Rightarrow> enc_locals \<Rightarrow> nat option" where
  \<comment> \<open>how many times the encoder task runs its step handler on the received events: the
      task is run with a handler that only counts\<close>
  "count_steps evs l = map_option snd (encoder_task (\<lambda>dt n. Some (Suc n)) Some evs (l, 0))"

definition in_window :: "32 word \<Rightarrow> (32 word \<times> enc_evt_t) list \<Rightarrow> bool" where
  \<comment> \<open>a burst of step events: the first is received at \<open>t0\<close>, the others in order of time and
      less than 60 ms after it\<close>
  "in_window t0 evs \<longleftrightarrow>
     evs \<noteq> [] \<and> fst (hd evs) = t0 \<and>
     list_all (\<lambda>(t, e). evt_type e = ENC_EVT_CLK \<and> unat (t - t0) < 60) evs \<and>
     sorted (map (\<lambda>(t, e). unat (t - t0)) evs)"

subsection \<open>Example platforms, inputs and states\<close>

definition clk :: enc_evt_t where
  "clk = \<lparr>evt_type = ENC_EVT_CLK, dt_level = 0\<rparr>"

definition sw :: enc_evt_t where
  "sw = \<lparr>evt_type = ENC_EVT_SW, dt_level = 0\<rparr>"

definition dir_entry :: "string \<Rightarrow> dirent" where
  "dir_entry name = \<lparr>d_name = name, d_type = DT_DIR\<rparr>"

definition wav_entry :: "string \<Rightarrow> dirent" where
  "wav_entry name = \<lparr>d_name = name, d_type = DT_REG\<rparr>"

definition no_card :: platform where
  \<comment> \<open>a board without a card: mounting fails\<close>
  "no_card =
     \<lparr>opendir = (\<lambda>_. None), stat = (\<lambda>_. None), access = (\<lambda>_. False),
      fopen = (\<lambda>_. None), malloc_ok = (\<lambda>_. True), sd_mount_ok = False,
      i2s_driver_install_ok = (\<lambda>_ _. True), i2s_set_pin_ok = True\<rparr>"

definition demo_wav :: "8 word list" where
  \<comment> \<open>a 44-byte header (mono, 8000 Hz, 16 bit) and two samples\<close>
  "demo_wav =
     bytes_of ''RIFF'' @ [40, 0, 0, 0] @ bytes_of ''WAVEfmt '' @
     [16, 0, 0, 0, 1, 0, 1, 0, 64, 31, 0, 0, 128, 62, 0, 0, 2, 0, 16, 0] @
     bytes_of ''data'' @ [4, 0, 0, 0] @ [1, 0, 2, 0]"

definition demo_card :: platform where
  \<comment> \<open>a card with the folder \<^verbatim>\<open>01\<close> holding \<^verbatim>\<open>S1.wav\<close>, and \<^verbatim>\<open>story1.wav\<close> at the root\<close>
  "demo_card =
     \<lparr>opendir = (\<lambda>p. if p = ''/sdcard'' then Some [dir_entry ''01'']
                     else if p = ''/sdcard/01'' then Some [wav_entry ''S1.wav''] else None),
      stat = (\<lambda>_. None),
      access = (\<lambda>p. p = ''/sdcard/story1.wav''),
      fopen = (\<lambda>p. if p = ''/sdcard/01/S1.wav'' then Some demo_wav else None),
      malloc_ok = (\<lambda>_. True), sd_mount_ok = True,
      i2s_driver_install_ok = (\<lambda>_ _. True), i2s_set_pin_ok = True\<rparr>"

definition card_removed :: platform where
  \<comment> \<open>the same card after it was pulled out: no file opens\<close>
  "card_removed = demo_card\<lparr>fopen := (\<lambda>_. None)\<rparr>"

definition card_silent :: platform where
  \<comment> \<open>the same card with \<^verbatim>\<open>S1.wav\<close> cut down to its header: a file without samples\<close>
  "card_silent = demo_card\<lparr>fopen := (\<lambda>p. if p = ''/sdcard/01/S1.wav'' then Some (take 44 demo_wav)
                                         else None)\<rparr>"

definition long_folder :: string where
  \<comment> \<open>a folder path of 256 characters\<close>
  "long_folder = ''/sdcard/'' @ replicate 248 CHR ''a''"

definition long_card :: platform where
  \<comment> \<open>a card whose only story clip lies in the long folder\<close>
  "long_card = demo_card\<lparr>access := (\<lambda>p. p = long_folder @ ''/story1.wav'')\<rparr>"

definition buttons :: "bool \<Rightarrow> bool \<Rightarrow> bool \<Rightarrow> bool \<Rightarrow> 32 word \<Rightarrow> main_in" where
  \<comment> \<open>the four pin levels (Play/Pause, Home, Vol+, Vol-) read at time \<open>t\<close>\<close>
  "buttons play home volp volm t =
     \<lparr>lvl_play = play, t_play = t, lvl_home = home, t_home = t,
      lvl_volp = volp, t_volp = t, lvl_volm = volm, t_volm = t\<rparr>"

definition demo_presses :: "input list" where
  \<comment> \<open>Play/Pause three times: Home to folder list, into folder \<^verbatim>\<open>01\<close>, play the first track\<close>
  "demo_presses =
     [MAIN_LOOP (buttons True False False False 1000),
      MAIN_LOOP (buttons False False False False 1010),
      MAIN_LOOP (buttons True False False False 2000),
      MAIN_LOOP (buttons False False False False 2010),
      MAIN_LOOP (buttons True False False False 3000),
      MAIN_LOOP (buttons False False False False 3010)]"

definition demo_inputs :: "input list" where
  \<comment> \<open>then two steps of the audio task: the stream is opened and the first chunk written\<close>
  "demo_inputs = demo_presses @ [AUDIO, AUDIO]"

definition demo_rtos_requested :: rtos where
  \<comment> \<open>the state after \<open>demo_presses\<close>\<close>
  "demo_rtos_requested =
     initial_rtos\<lparr>folder_list := [''/sdcard/01''], audio_task_handle := True,
       nav_state := NAV_FILE_VIEW, wav_list := [''/sdcard/01/S1.wav''], playing_track := 0,
       g_playing := True, announce_path := ''/sdcard/story1.wav'', stop_flag := True,
       notify_value := 1, notify_pending := True,
       btn_play := \<lparr>last_time = 3000, last_state = False\<rparr>\<rparr>"

definition demo_rtos_playing :: rtos where
  \<comment> \<open>the state after \<open>demo_inputs\<close>\<close>
  "demo_rtos_playing =
     demo_rtos_requested\<lparr>stop_flag := False, notify_value := 0, notify_pending := False,
       log := [STREAM_CALL TRACK ''/sdcard/01/S1.wav'', I2S_INSTALL, I2S_WRITE [1, 0, 2, 0]],
       pc := IN_STREAM TRACK ''/sdcard/01/S1.wav'' demo_wav 48 2048\<rparr>"

definition demo_v2_playing :: v2 where
  \<comment> \<open>\<^verbatim>\<open>noor_v2\<close> inside the stream of the first track, no announcement pending\<close>
  "demo_v2_playing =
     \<lparr>nav_state = NAV_FILE_VIEW, g_pause = False, g_playing = True, playing_track = 0,
      g_volume_percent = 100, folder_list = [''/sdcard/01''], selected_folder = 0,
      wav_list = [''/sdcard/01/S1.wav''], current_track = 0,
      btn_play = \<lparr>last_time = 3000, last_state = False\<rparr>,
      btn_home = \<lparr>last_time = 0, last_state = False\<rparr>,
      btn_volp = \<lparr>last_time = 0, last_state = False\<rparr>,
      btn_volm = \<lparr>last_time = 0, last_state = False\<rparr>,
      enc = \<lparr>last_step_time = 0, last_sw_time = 0\<rparr>,
      pc = IN_STREAM TRACK ''/sdcard/01/S1.wav'' demo_wav 44 2048,
      log = [STREAM_CALL TRACK ''/sdcard/01/S1.wav'', I2S_INSTALL],
      announce_path = [], announce_request = False,
      g_stop_and_rewind_v2 = False, track_change_request_v2 = False\<rparr>"

definition demo_v1 :: "audio_pc \<Rightarrow> event list \<Rightarrow> v1" where
  \<comment> \<open>\<^verbatim>\<open>noor_v1\<close> asked to play the first track, with the audio task at \<open>c\<close> and trace \<open>evs\<close>\<close>
  "demo_v1 c evs =
     \<lparr>nav_state = NAV_FILE_VIEW, g_pause = False, g_playing = True, playing_track = 0,
      g_volume_percent = 100, folder_list = [''/sdcard/01''], selected_folder = 0,
      wav_list = [''/sdcard/01/S1.wav''], current_track = 0,
      btn_play = \<lparr>last_time = 3000, last_state = False\<rparr>,
      btn_home = \<lparr>last_time = 0, last_state = False\<rparr>,
      btn_volp = \<lparr>last_time = 0, last_state = False\<rparr>,
      btn_volm = \<lparr>last_time = 0, last_state = False\<rparr>,
      enc = \<lparr>last_step_time = 0, last_sw_time = 0\<rparr>,
      pc = c, log = evs,
      g_stop_and_rewind = False, track_change_request = False\<rparr>"

definition demo_v1_at_eof :: v1 where
  \<comment> \<open>inside the stream, all four data bytes read and written\<close>
  "demo_v1_at_eof =
     demo_v1 (IN_STREAM TRACK ''/sdcard/01/S1.wav'' demo_wav 48 2048)
       [STREAM_CALL TRACK ''/sdcard/01/S1.wav'', I2S_INSTALL, I2S_WRITE [1, 0, 2, 0]]"

definition duo_card :: platform where
  \<comment> \<open>a card with the folder \<^verbatim>\<open>01\<close> holding \<^verbatim>\<open>S1.wav\<close> and \<^verbatim>\<open>S2.wav\<close>, and \<^verbatim>\<open>story2.wav\<close> at
      the root\<close>
  "duo_card =
     \<lparr>opendir = (\<lambda>p. if p = ''/sdcard'' then Some [dir_entry ''01'']
                     else if p = ''/sdcard/01''
                       then Some [wav_entry ''S1.wav'', wav_entry ''S2.wav''] else None),
      stat = (\<lambda>_. None),
      access = (\<lambda>p. p = ''/sdcard/story2.wav''),
      fopen = (\<lambda>p. if p = ''/sdcard/01/S1.wav'' \<or> p = ''/sdcard/01/S2.wav''
                     then Some demo_wav else None),
      malloc_ok = (\<lambda>_. True), sd_mount_ok = True,
      i2s_driver_install_ok = (\<lambda>_ _. True), i2s_set_pin_ok = True\<rparr>"

definition duo_playing :: rtos where
  \<comment> \<open>the state after \<open>demo_inputs\<close> on \<open>duo_card\<close>: inside the stream of \<^verbatim>\<open>S1.wav\<close>\<close>
  "duo_playing =
     initial_rtos\<lparr>folder_list := [''/sdcard/01''], audio_task_handle := True,
       nav_state := NAV_FILE_VIEW, wav_list := [''/sdcard/01/S1.wav'', ''/sdcard/01/S2.wav''],
       playing_track := 0, g_playing := True,
       btn_play := \<lparr>last_time = 3000, last_state = False\<rparr>,
       log := [STREAM_CALL TRACK ''/sdcard/01/S1.wav'', I2S_INSTALL, I2S_WRITE [1, 0, 2, 0]],
       pc := IN_STREAM TRACK ''/sdcard/01/S1.wav'' demo_wav 48 2048\<rparr>"

definition duo_requested :: rtos where
  \<comment> \<open>then one encoder step: \<^verbatim>\<open>S2.wav\<close> is selected and \<^verbatim>\<open>story2.wav\<close> requested\<close>
  "duo_requested =
     duo_playing\<lparr>current_track := 1, enc := \<lparr>last_step_time = 4000, last_sw_time = 0\<rparr>,
       announce_path := ''/sdcard/story2.wav'', stop_flag := True,
       notify_value := NOTIFY_ANNOUNCE_BIT, notify_pending := True\<rparr>"

definition duo_final :: rtos where
  \<comment> \<open>then a Play/Pause press and five steps of the audio task\<close>
  "duo_final =
     duo_requested\<lparr>btn_play := \<lparr>last_time = 5000, last_state = True\<rparr>,
       playing_track := - 1, g_playing := False, stop_flag := False,
       notify_value := 0, notify_pending := False,
       log := [STREAM_CALL TRACK ''/sdcard/01/S1.wav'', I2S_INSTALL, I2S_WRITE [1, 0, 2, 0],
               STREAM_INTERRUPTED, I2S_UNINSTALL, STREAM_RETURN,
               STREAM_CALL TRACK ''/sdcard/01/S2.wav'', I2S_INSTALL, I2S_WRITE [1, 0, 2, 0],
               I2S_UNINSTALL, STREAM_RETURN],
       pc := AT_LOOP_TOP\<rparr>"

section \<open>Lemmas\<close>

lemma scan_root_loop_le:
  "length found \<le> MAX_FOLDERS \<Longrightarrow> length (scan_root_loop pf path es found) \<le> MAX_FOLDERS"
  by (induction es arbitrary: found) (auto split: option.splits)

lemma scan_wavs_loop_le:
  "length found \<le> MAX_WAV_FILES \<Longrightarrow> length (scan_wavs_loop pf path es found) \<le> MAX_WAV_FILES"
  by (induction es arbitrary: found) (auto split: option.splits if_splits)

lemma scan_root_loop_full:
  "length found = MAX_FOLDERS \<Longrightarrow> scan_root_loop pf path es found = found"
  by (cases es) auto

lemma scan_wavs_loop_full:
  "length found = MAX_WAV_FILES \<Longrightarrow> scan_wavs_loop pf path es found = found"
  by (cases es) auto

lemma scan_root_loop_append:
  "length found \<le> MAX_FOLDERS \<Longrightarrow> length (scan_root_loop pf path es found) = MAX_FOLDERS \<Longrightarrow>
   scan_root_loop pf path (es @ extra) found = scan_root_loop pf path es found"
proof (induction es arbitrary: found)
  case Nil
  then show ?case by (simp add: scan_root_loop_full)
next
  case (Cons e es)
  then show ?case by (auto split: option.splits if_splits)
qed

lemma scan_wavs_loop_append:
  "length found \<le> MAX_WAV_FILES \<Longrightarrow> length (scan_wavs_loop pf path es found) = MAX_WAV_FILES \<Longrightarrow>
   scan_wavs_loop pf path (es @ extra) found = scan_wavs_loop pf path es found"
proof (induction es arbitrary: found)
  case Nil
  then show ?case by (simp add: scan_wavs_loop_full)
next
  case (Cons e es)
  then show ?case by (auto split: option.splits if_splits)
qed












lemma announce_stories_frame:
  assumes "\<And>p s. f (request p s) = f s"
  shows "f (announce_stories request pf fp s) = f s"
  by (simp add: announce_stories_def Let_def assms split: option.splits)

lemma announce_story_frame:
  assumes "\<And>p s. f (request p s) = f s"
  shows "f (announce_story request pf fullname s) = f s"
  by (simp add: announce_story_def Let_def assms split: option.splits)

lemma request_announcement_rtos_frame [simp]:
  "g_volume_percent (request_announcement_rtos p s) = g_volume_percent s"
  "pc (request_announcement_rtos p s) = pc s"
  "log (request_announcement_rtos p s) = log s"
  by (simp_all add: request_announcement_rtos_def Let_def split: option.splits)

lemma scan_wavs_in_folder_frame [simp]:
  "g_volume_percent (scan_wavs_in_folder pf path s) = g_volume_percent s"
  "pc (scan_wavs_in_folder pf path s) = pc s"
  "log (scan_wavs_in_folder pf path s) = log s"
  by (simp_all add: scan_wavs_in_folder_def free_wav_list_def Let_def split: option.splits)

lemma free_wav_list_frame [simp]:
  "g_volume_percent (free_wav_list s) = g_volume_percent s"
  "pc (free_wav_list s) = pc s"
  "log (free_wav_list s) = log s"
  by (simp_all add: free_wav_list_def)

lemma file_view_play_rtos_frame [simp]:
  "g_volume_percent (file_view_play_rtos s) = g_volume_percent s"
  "pc (file_view_play_rtos s) = pc s"
  "log (file_view_play_rtos s) = log s"
  by (simp_all add: file_view_play_rtos_def notify_play_rtos_def)

lemma enter_folder_rtos_frame:
  assumes "enter_folder_rtos pf s = Some s'"
  shows "g_volume_percent s' = g_volume_percent s" "pc s' = pc s" "log s' = log s"
  using assms
  by (auto simp: enter_folder_rtos_def Let_def announce_story_frame announce_stories_frame
           split: option.splits if_splits)

lemma play_pause_rtos_frame:
  assumes "play_pause_rtos pf s = Some s'"
  shows "g_volume_percent s' = g_volume_percent s" "pc s' = pc s" "log s' = log s"
  using assms
  by (auto simp: play_pause_rtos_def enter_folder_rtos_frame split: nav_state_t.splits if_splits)

lemma enc_sw_rtos_frame:
  assumes "enc_sw_rtos pf s = Some s'"
  shows "g_volume_percent s' = g_volume_percent s" "pc s' = pc s" "log s' = log s"
  using assms
  by (auto simp: enc_sw_rtos_def enter_folder_rtos_frame split: nav_state_t.splits if_splits)

lemma enc_clk_rtos_frame:
  assumes "enc_clk_rtos pf dt s = Some s'"
  shows "g_volume_percent s' = g_volume_percent s" "pc s' = pc s" "log s' = log s"
  using assms
  by (auto simp: enc_clk_rtos_def Let_def announce_story_frame announce_stories_frame
           split: option.splits if_splits)

lemma home_rtos_frame [simp]:
  "g_volume_percent (home_rtos pf s) = g_volume_percent s"
  "pc (home_rtos pf s) = pc s"
  "log (home_rtos pf s) = log s"
  by (simp_all add: home_rtos_def Let_def split: nav_state_t.splits)

lemma vol_frame [simp]:
  "pc (vol_up s) = pc s" "log (vol_up s) = log s"
  "pc (vol_down s) = pc s" "log (vol_down s) = log s"
  by (simp_all add: vol_up_def vol_down_def Let_def)



lemma main_loop_rtos_frame:
  assumes "main_loop_rtos pf inp s = Some s'"
  shows "pc s' = pc s" "log s' = log s"
  using assms
  by (auto simp: main_loop_rtos_def Let_def split: option.splits if_splits
           dest: play_pause_rtos_frame)


lemma i2s_busy_append: "i2s_busy b (xs @ ys) = i2s_busy (i2s_busy b xs) ys"
  by (induction b xs rule: i2s_busy.induct) simp_all

lemma i2s_exclusive_append:
  "i2s_exclusive b (xs @ ys) \<longleftrightarrow> i2s_exclusive b xs \<and> i2s_exclusive (i2s_busy b xs) ys"
  by (induction b xs rule: i2s_exclusive.induct) auto

lemma stream_open_failed:
  "stream_open pf k path = OPEN_FAILED evs \<Longrightarrow> i2s_exclusive False evs \<and> \<not> i2s_busy False evs"
  by (auto simp: stream_open_def Let_def split: option.splits if_splits)

lemma stream_open_opened:
  "stream_open pf k path = OPENED evs file pos n \<Longrightarrow> i2s_exclusive False evs \<and> i2s_busy False evs"
  by (auto simp: stream_open_def Let_def split: option.splits if_splits)

lemma stream_loop_greeting_writes:
  "i2s_exclusive True (stream_loop_greeting vol fl pos n) \<and>
   i2s_busy True (stream_loop_greeting vol fl pos n)"
proof (induction vol fl pos n rule: stream_loop_greeting.induct)
  case (1 vol fl pos n)
  then show ?case
    by (subst (1 2) stream_loop_greeting.simps) (auto split: iter_result.splits)
qed

lemma stream_greeting_inv:
  "audio_inv s \<Longrightarrow> pc s = AT_LOOP_TOP \<Longrightarrow>
   audio_inv (stream_greeting pf path s) \<and> pc (stream_greeting pf path s) = AT_LOOP_TOP"
  using stream_loop_greeting_writes
  by (auto simp: stream_greeting_def audio_inv_def i2s_exclusive_append i2s_busy_append
           split: open_result.splits dest: stream_open_failed stream_open_opened)

lemma stream_greeting_vol [simp]:
  "g_volume_percent (stream_greeting pf path s) = g_volume_percent s"
  by (simp add: stream_greeting_def split: open_result.splits)

lemma stream_returned_rtos_frame [simp]:
  "log (stream_returned_rtos k s) = log s"
  "pc (stream_returned_rtos k s) = AT_LOOP_TOP"
  "g_volume_percent (stream_returned_rtos k s) = g_volume_percent s"
  by (simp_all add: stream_returned_rtos_def after_track_rtos_def Let_def)

lemma start_stream_inv:
  assumes r: "\<And>k s. log (returned k s) = log s" "\<And>k s. pc (returned k s) = AT_LOOP_TOP"
  assumes "audio_inv s" "pc s = AT_LOOP_TOP"
  shows "audio_inv (start_stream returned pf k path s)"
  using assms(3,4)
  by (auto simp: start_stream_def audio_inv_def i2s_exclusive_append i2s_busy_append r
           split: open_result.splits dest: stream_open_failed stream_open_opened)

lemma stream_step_inv:
  assumes r: "\<And>k s. log (returned k s) = log s" "\<And>k s. pc (returned k s) = AT_LOOP_TOP"
  assumes "audio_inv s"
  shows "audio_inv (stream_step returned stop paused s)"
  using assms(3)
  by (auto simp: stream_step_def audio_inv_def i2s_exclusive_append i2s_busy_append r
           split: audio_pc.splits iter_result.splits)

lemma start_stream_vol:
  assumes "\<And>k s. g_volume_percent (returned k s) = g_volume_percent s"
  shows "g_volume_percent (start_stream returned pf k path s) = g_volume_percent s"
  by (simp add: start_stream_def assms split: open_result.splits)

lemma stream_step_vol:
  assumes "\<And>k s. g_volume_percent (returned k s) = g_volume_percent s"
  shows "g_volume_percent (stream_step returned stop paused s) = g_volume_percent s"
  by (simp add: stream_step_def assms split: audio_pc.splits iter_result.splits)

lemma audio_inv_upd:
  "pc s' = pc s \<Longrightarrow> log s' = log s \<Longrightarrow> audio_inv s' = audio_inv s"
  by (simp add: audio_inv_def)

lemma audio_step_rtos_vol [simp]:
  "g_volume_percent (audio_step_rtos pf s) = g_volume_percent s"
  by (simp add: audio_step_rtos_def audio_dispatch_rtos_def notify_taken_rtos_def Let_def start_stream_vol stream_step_vol
           split: audio_pc.splits)

lemma audio_step_rtos_inv:
  assumes "audio_inv s"
  shows "audio_inv (audio_step_rtos pf s)"
proof (cases "pc s")
  case AT_LOOP_TOP
  have a: "audio_inv (s\<lparr>notify_value := 0, notify_pending := False\<rparr>)"
    using assms by (simp add: audio_inv_def)
  have b: "audio_inv (s\<lparr>notify_value := 0, notify_pending := False, stop_flag := False\<rparr>)"
    using assms by (simp add: audio_inv_def)
  have c: "audio_inv (s\<lparr>notify_value := 0, notify_pending := False, stop_flag := False,
             playing_track := i, g_playing := True, g_pause := False\<rparr>)" for i
    using assms by (simp add: audio_inv_def)
  show ?thesis
    using AT_LOOP_TOP assms a b c
    by (auto simp: audio_step_rtos_def audio_dispatch_rtos_def notify_taken_rtos_def Let_def intro!: start_stream_inv)
next
  case (IN_STREAM k path fl pos n)
  then show ?thesis
    using assms by (simp add: audio_step_rtos_def audio_dispatch_rtos_def notify_taken_rtos_def stream_step_inv)
qed

lemma sys_step_rtos_inv:
  assumes "sys_step_rtos pf i s = Some s'" "audio_inv s"
  shows "audio_inv s'"
proof (cases i)
  case (MAIN_LOOP inp)
  then show ?thesis
    using assms main_loop_rtos_frame[of pf inp s s'] by (simp add: sys_step_rtos_def audio_inv_def)
next
  case (ENCODER now ev)
  then show ?thesis
    using assms
    by (auto simp: sys_step_rtos_def encoder_iter_def audio_inv_def
             split: option.splits enc_evt_type_t.splits if_splits
             dest: enc_clk_rtos_frame enc_sw_rtos_frame)
next
  case AUDIO
  then show ?thesis using assms by (auto simp: sys_step_rtos_def audio_step_rtos_inv)
qed


lemma run_rtos_inv:
  "run_rtos pf s inputs = Some s' \<Longrightarrow> audio_inv s \<Longrightarrow> audio_inv s'"
  by (induction inputs arbitrary: s) (auto split: option.splits dest: sys_step_rtos_inv)


lemma scan_root_folders_frame [simp]:
  "g_volume_percent (scan_root_folders pf path s) = g_volume_percent s"
  "pc (scan_root_folders pf path s) = pc s"
  "log (scan_root_folders pf path s) = log s"
  by (simp_all add: scan_root_folders_def free_folder_list_def Let_def split: option.splits)


lemma stream_greeting_pc [simp]: "pc (stream_greeting pf path s) = pc s"
  by (simp add: stream_greeting_def split: open_result.splits)

lemma boot_rtos_inv: "audio_inv (app_main_boot_rtos pf) \<and> pc (app_main_boot_rtos pf) = AT_LOOP_TOP"
proof -
  have i0: "audio_inv initial_rtos" "pc initial_rtos = AT_LOOP_TOP"
    by (simp_all add: audio_inv_def initial_rtos_def)
  have up: "audio_inv (s\<lparr>audio_task_handle := b\<rparr>) = audio_inv s" for s :: rtos and b
    by (simp add: audio_inv_def)
  have sel: "audio_inv (s\<lparr>selected_folder := b\<rparr>) = audio_inv s" for s :: rtos and b
    by (simp add: audio_inv_def)
  have sc: "audio_inv (scan_root_folders pf p s) = audio_inv s" for s :: rtos and p
    by (simp add: audio_inv_def)
  show ?thesis
    using i0
    by (auto simp: app_main_boot_rtos_def Let_def up sel sc stream_greeting_inv)
qed

lemma step_test: "(a < ENC_STEP_DEBOUNCE_MS) = (unat a < 60)"
  by (simp add: ENC_STEP_DEBOUNCE_MS_def word_less_nat_alt)

lemma encoder_iter_clk:
  "evt_type ev = ENC_EVT_CLK \<Longrightarrow>
   encoder_iter on_clk on_sw now ev (l, s) =
     (if 60 \<le> unat (now - last_step_time l)
      then map_option (Pair (l\<lparr>last_step_time := now\<rparr>)) (on_clk (dt_level ev) s)
      else Some (l, s))"
  by (auto simp: encoder_iter_def step_test)

lemma reject_all:
  "list_all (\<lambda>(t, e). evt_type e = ENC_EVT_CLK \<and> unat (t - last_step_time l) < 60) evs \<Longrightarrow>
   encoder_task on_clk on_sw evs (l, s) = Some (l, s)"
  by (induction evs) (auto simp: encoder_iter_clk)

lemma later_close:
  fixes t t' t0 :: "32 word"
  assumes "unat (t - t0) \<le> unat (t' - t0)" "unat (t' - t0) < 60"
  shows "unat (t' - t) < 60"
proof -
  define a where "a = t' - t0"
  define b where "b = t - t0"
  have le: "b \<le> a" using assms(1) by (simp add: a_def b_def word_le_nat_alt)
  have "unat (a - b) = unat a - unat b" using le by (rule unat_sub)
  moreover have "a - b = t' - t" by (simp add: a_def b_def)
  ultimately have "unat (t' - t) = unat a - unat b" by simp
  then show ?thesis using assms(2) by (simp add: a_def)
qed

lemma at_most_one_aux:
  assumes "list_all (\<lambda>(t, e). evt_type e = ENC_EVT_CLK \<and> unat (t - t0) < 60) evs"
    and "sorted (map (\<lambda>(t, e). unat (t - t0)) evs)"
  shows "\<exists>l' c'. encoder_task (\<lambda>dt n. Some (Suc n)) Some evs (l, c) = Some (l', c') \<and> c' \<le> Suc c"
  using assms
proof (induction evs arbitrary: l)
  case Nil
  then show ?case by simp
next
  case (Cons x evs)
  obtain t e where x: "x = (t, e)" by (cases x)
  have clk: "evt_type e = ENC_EVT_CLK" and near: "unat (t - t0) < 60"
    using Cons.prems(1) by (simp_all add: x)
  show ?case
  proof (cases "60 \<le> unat (t - last_step_time l)")
    case True
    have "list_all (\<lambda>(t', e). evt_type e = ENC_EVT_CLK \<and> unat (t' - t) < 60) evs"
      using Cons.prems unfolding list_all_iff x
      by (auto intro!: later_close[of t t0])
    then have "encoder_task (\<lambda>dt n. Some (Suc n)) Some evs (l\<lparr>last_step_time := t\<rparr>, Suc c)
               = Some (l\<lparr>last_step_time := t\<rparr>, Suc c)"
      by (intro reject_all) simp
    then show ?thesis using True clk by (simp add: x encoder_iter_clk)
  next
    case False
    then show ?thesis using Cons clk by (simp add: x encoder_iter_clk)
  qed
qed

lemma burst_at_most_one:
  assumes "in_window t0 evs"
  shows "\<exists>c. count_steps evs l = Some c \<and> c \<le> 1"
  using at_most_one_aux[of t0 evs l 0] assms by (auto simp: in_window_def count_steps_def)

lemma burst_exactly_one:
  assumes "in_window t0 evs" "60 \<le> unat (t0 - last_step_time l)"
  shows "count_steps evs l = Some 1"
proof -
  obtain e rest where evs: "evs = (t0, e) # rest"
    using assms(1) by (cases evs) (auto simp: in_window_def)
  have clk: "evt_type e = ENC_EVT_CLK" using assms(1) by (simp add: in_window_def evs)
  have "list_all (\<lambda>(t, e). evt_type e = ENC_EVT_CLK \<and> unat (t - t0) < 60) rest"
    using assms(1) by (simp add: in_window_def evs)
  then have "encoder_task (\<lambda>dt n. Some (Suc n)) Some rest (l\<lparr>last_step_time := t0\<rparr>, Suc 0)
             = Some (l\<lparr>last_step_time := t0\<rparr>, Suc 0)"
    by (intro reject_all) simp
  then show ?thesis using assms(2) clk by (simp add: count_steps_def evs encoder_iter_clk)
qed

lemma burst_none:
  assumes "list_all (\<lambda>(t, e). evt_type e = ENC_EVT_CLK \<and> unat (t - last_step_time l) < 60) evs"
  shows "count_steps evs l = Some 0"
  using reject_all[OF assms, of "\<lambda>dt n. Some (Suc n)" Some 0] by (simp add: count_steps_def)

lemma request_announcement_v2_Some:
  "request_announcement_v2 (Some p) s = s\<lparr>announce_path := take 255 p, announce_request := True\<rparr>"
  by (simp add: request_announcement_v2_def strncpy_path_def ANNOUNCE_PATH_MAX_def)

lemma request_announcement_rtos_Some:
  "request_announcement_rtos (Some p) r =
     (if audio_task_handle r
      then r\<lparr>announce_path := take 255 p, stop_flag := True,
             notify_value := or (notify_value r) (push_bit 31 1), notify_pending := True\<rparr>
      else r\<lparr>announce_path := take 255 p, stop_flag := True\<rparr>)"
  by (simp add: request_announcement_rtos_def strncpy_path_def ANNOUNCE_PATH_MAX_def Let_def
      NOTIFY_ANNOUNCE_BIT_def)

lemma same_track_rtos:
  "nav_state s = NAV_FILE_VIEW \<Longrightarrow> g_playing s \<Longrightarrow> playing_track s = current_track s \<Longrightarrow>
   play_pause_rtos pf s = Some (s\<lparr>g_pause := \<not> g_pause s\<rparr>) \<and>
   enc_sw_rtos pf s = Some (s\<lparr>g_pause := \<not> g_pause s\<rparr>)"
  by (simp add: play_pause_rtos_def enc_sw_rtos_def file_view_play_rtos_def)

lemma same_track_v1:
  "nav_state s = NAV_FILE_VIEW \<Longrightarrow> g_playing s \<Longrightarrow> playing_track s = current_track s \<Longrightarrow>
   play_pause_v1 pf s = Some (s\<lparr>g_pause := \<not> g_pause s\<rparr>) \<and>
   enc_sw_v1 pf s = Some (s\<lparr>g_pause := \<not> g_pause s\<rparr>)"
  by (simp add: play_pause_v1_def enc_sw_v1_def file_view_play_v1_def)

lemma other_track_rtos:
  "nav_state s = NAV_FILE_VIEW \<Longrightarrow> \<not> (g_playing s \<and> playing_track s = current_track s) \<Longrightarrow>
   num_tracks s > 0 \<Longrightarrow> audio_task_handle s \<Longrightarrow>
   play_pause_rtos pf s = Some (s\<lparr>playing_track := current_track s, g_playing := True, g_pause := False,
        stop_flag := True, notify_value := word_of_int (current_track s + 1), notify_pending := True\<rparr>)
   \<and> enc_sw_rtos pf s = play_pause_rtos pf s"
  by (auto simp add: play_pause_rtos_def enc_sw_rtos_def file_view_play_rtos_def notify_play_rtos_def)

lemma play_request_only_rtos:
  "nav_state s = NAV_FILE_VIEW \<Longrightarrow> play_pause_rtos pf s = Some s' \<or> enc_sw_rtos pf s = Some s' \<Longrightarrow>
   (notify_pending s' \<and> \<not> notify_pending s) \<or> (stop_flag s' \<and> \<not> stop_flag s) \<or> notify_value s' \<noteq> notify_value s \<Longrightarrow>
   \<not> g_playing s \<or> playing_track s \<noteq> current_track s"
  by (auto simp add: play_pause_rtos_def enc_sw_rtos_def file_view_play_rtos_def notify_play_rtos_def split: if_splits)

lemma other_track_v1:
  "nav_state s = NAV_FILE_VIEW \<Longrightarrow> \<not> (g_playing s \<and> playing_track s = current_track s) \<Longrightarrow>
   num_tracks s > 0 \<Longrightarrow>
   play_pause_v1 pf s = Some (s\<lparr>playing_track := current_track s, g_playing := True, g_pause := False,
        track_change_request := True\<rparr>)
   \<and> enc_sw_v1 pf s = play_pause_v1 pf s"
  by (auto simp add: play_pause_v1_def enc_sw_v1_def file_view_play_v1_def)

lemma play_request_only_v1:
  "nav_state s = NAV_FILE_VIEW \<Longrightarrow> play_pause_v1 pf s = Some s' \<or> enc_sw_v1 pf s = Some s' \<Longrightarrow>
   track_change_request s' \<and> \<not> track_change_request s \<Longrightarrow>
   \<not> g_playing s \<or> playing_track s \<noteq> current_track s"
  by (auto simp add: play_pause_v1_def enc_sw_v1_def file_view_play_v1_def split: if_splits)

lemma eof_rtos:
  "pc s = IN_STREAM k path fl pos n \<Longrightarrow> \<not> (k \<noteq> GREETING \<and> stop_flag s) \<Longrightarrow> \<not> (k = TRACK \<and> g_pause s) \<Longrightarrow>
   take n (drop pos fl) = [] \<Longrightarrow>
   audio_step_rtos pf s = stream_returned_rtos k (s\<lparr>log := log s @ [I2S_UNINSTALL, STREAM_RETURN], pc := AT_LOOP_TOP\<rparr>)"
  by (auto simp add: audio_step_rtos_def audio_dispatch_rtos_def notify_taken_rtos_def stream_step_def stream_iter_def)

lemma eof_v2:
  "pc s = IN_STREAM k path fl pos n \<Longrightarrow> \<not> (k \<noteq> GREETING \<and> announce_request s) \<Longrightarrow>
   take n (drop pos fl) = [] \<Longrightarrow>
   audio_step_v2 pf s = stream_returned_v2 k (s\<lparr>log := log s @ [I2S_UNINSTALL, STREAM_RETURN], pc := AT_LOOP_TOP\<rparr>)"
  by (auto simp add: audio_step_v2_def stream_step_def stream_iter_def)

lemma eof_v1:
  "pc s = IN_STREAM k path fl pos n \<Longrightarrow> g_playing s \<Longrightarrow> \<not> track_change_request s \<Longrightarrow>
   \<not> g_stop_and_rewind s \<Longrightarrow> \<not> g_pause s \<Longrightarrow> take n (drop pos fl) = [] \<Longrightarrow>
   audio_step_v1 pf s = s\<lparr>pc := IN_STREAM k path fl WAV_DATA_OFFSET n\<rparr>"
  by (simp add: audio_step_v1_def)

lemma open_failed_v1:
  assumes "pc s = AT_LOOP_TOP" "g_playing s" "nav_state s = NAV_FILE_VIEW"
    "0 \<le> playing_track s" "playing_track s < num_tracks s"
    "stream_open pf TRACK (wav_list s ! nat (playing_track s)) = OPEN_FAILED evs"
  shows "audio_step_v1 pf s = s\<lparr>log := log s @ evs\<rparr>"
    and "audio_step_v1 pf (audio_step_v1 pf s) = s\<lparr>log := log s @ evs @ evs\<rparr>"
proof -
  show a: "audio_step_v1 pf s = s\<lparr>log := log s @ evs\<rparr>"
    using assms by (auto simp: audio_step_v1_def Let_def)
  show "audio_step_v1 pf (audio_step_v1 pf s) = s\<lparr>log := log s @ evs @ evs\<rparr>"
    unfolding a using assms by (auto simp: audio_step_v1_def Let_def)
qed

lemma play_value_aux:
  fixes k :: int
  assumes "0 < k" "k \<le> 64"
  shows "and (word_of_int k :: 32 word) NOTIFY_ANNOUNCE_BIT = 0"
    and "(word_of_int k :: 32 word) \<noteq> 0"
    and "sint (word_of_int k :: 32 word) = k"
proof -
  show "sint (word_of_int k :: 32 word) = k"
    using assms by (simp add: sint_sbintrunc' signed_take_bit_int_eq_self)
  have "\<not> (2 :: int) ^ 32 dvd k"
    using assms by (auto dest!: zdvd_imp_le)
  then show "(word_of_int k :: 32 word) \<noteq> 0"
    by (simp add: word_of_int_eq_0_iff)
  have "k div 2 ^ 31 = 0" using assms by simp
  then have "\<not> bit k 31"
    by (simp add: bit_iff_odd)
  then have "\<not> bit (word_of_int k :: 32 word) 31"
    by (simp add: bit_word_of_int_iff)
  then have "and (word_of_int k :: 32 word) (2 ^ 31) = 0"
    by (rule iffD2[OF and_exp_eq_0_iff_not_bit])
  moreover have "NOTIFY_ANNOUNCE_BIT = (2 ^ 31 :: 32 word)"
    by (simp add: NOTIFY_ANNOUNCE_BIT_def)
  ultimately show "and (word_of_int k :: 32 word) NOTIFY_ANNOUNCE_BIT = 0"
    by (simp only:)
qed

lemma play_value:
  fixes idx :: int
  assumes "0 \<le> idx" "idx < 64"
  shows "and (word_of_int (idx + 1) :: 32 word) NOTIFY_ANNOUNCE_BIT = 0"
    and "(word_of_int (idx + 1) :: 32 word) \<noteq> 0"
    and "sint (word_of_int (idx + 1) :: 32 word) = idx + 1"
  using play_value_aux[of "idx + 1"] assms by simp_all

lemma open_failed_rtos:
  assumes "pc s = AT_LOOP_TOP" "notify_pending s" "notify_value s = word_of_int (idx + 1)"
    "0 \<le> idx" "idx < num_tracks s" "num_tracks s \<le> 64"
    "stream_open pf TRACK (wav_list s ! nat idx) = OPEN_FAILED evs"
  shows "audio_step_rtos pf s =
         s\<lparr>notify_value := 0, notify_pending := False, stop_flag := False, playing_track := - 1,
           g_playing := False, g_pause := False, log := log s @ evs\<rparr>"
proof -
  have i: "idx < 64" using assms by simp
  note pv = play_value[OF assms(4) i]
  show ?thesis
    using assms pv
    by (simp add: audio_step_rtos_def audio_dispatch_rtos_def notify_taken_rtos_def Let_def start_stream_def stream_returned_rtos_def
        after_track_rtos_def)
qed

lemma blocked_rtos:
  "pc s = AT_LOOP_TOP \<Longrightarrow> \<not> notify_pending s \<Longrightarrow> audio_step_rtos pf s = s"
  by (simp add: audio_step_rtos_def audio_dispatch_rtos_def notify_taken_rtos_def)

lemma completed_at_once_rtos:
  assumes "pc s = AT_LOOP_TOP" "notify_pending s" "notify_value s = word_of_int (idx + 1)"
    "0 \<le> idx" "idx < num_tracks s" "num_tracks s \<le> 64"
    "stream_open pf TRACK (wav_list s ! nat idx) = OPENED evs fl pos n" "take n (drop pos fl) = []"
  shows "audio_step_rtos pf (audio_step_rtos pf s) =
         s\<lparr>notify_value := 0, notify_pending := False, stop_flag := False, playing_track := - 1,
           g_playing := False, g_pause := False,
           log := log s @ evs @ [I2S_UNINSTALL, STREAM_RETURN]\<rparr>"
proof -
  have i: "idx < 64" using assms by simp
  note pv = play_value[OF assms(4) i]
  have 1: "audio_step_rtos pf s =
      s\<lparr>notify_value := 0, notify_pending := False, stop_flag := False, playing_track := idx,
           g_playing := True, g_pause := False, log := log s @ evs,
           pc := IN_STREAM TRACK (wav_list s ! nat idx) fl pos n\<rparr>"
    using assms pv
    by (simp add: audio_step_rtos_def audio_dispatch_rtos_def notify_taken_rtos_def Let_def start_stream_def)
  show ?thesis
    unfolding 1 using assms(8)
    by (simp add: audio_step_rtos_def audio_dispatch_rtos_def notify_taken_rtos_def stream_step_def stream_iter_def stream_returned_rtos_def
        after_track_rtos_def assms(1)[symmetric])
qed

lemma stream_open_failed_reported:
  "stream_open pf k path = OPEN_FAILED evs \<Longrightarrow>
   hd evs = STREAM_CALL k path \<and> (\<exists>e. last evs = STREAM_FAIL e) \<and>
   (\<forall>b. I2S_WRITE b \<notin> set evs)"
  by (auto simp: stream_open_def Let_def split: option.splits if_splits)

lemma stream_open_missing:
  "fopen pf path = None \<Longrightarrow> stream_open pf k path = OPEN_FAILED [STREAM_CALL k path, STREAM_FAIL NOT_FOUND]"
  "fopen pf path = Some fl \<Longrightarrow> parse_wav_header fl = None \<Longrightarrow>
     stream_open pf k path = OPEN_FAILED [STREAM_CALL k path, STREAM_FAIL BAD_HEADER]"
  "fopen pf path = Some fl \<Longrightarrow> parse_wav_header fl = Some w \<Longrightarrow> bits_per_sample w \<noteq> 16 \<Longrightarrow>
     stream_open pf k path = OPEN_FAILED [STREAM_CALL k path, STREAM_FAIL NOT_16_BIT]"
  by (simp_all add: stream_open_def)

lemma stream_open_call:
  "stream_open pf k path = OPEN_FAILED evs \<Longrightarrow> \<exists>r. evs = STREAM_CALL k path # r \<and> (\<forall>k' p. STREAM_CALL k' p \<notin> set r) \<and> (\<forall>b. I2S_WRITE b \<notin> set r)"
  "stream_open pf k path = OPENED evs fl pos n \<Longrightarrow> evs = [STREAM_CALL k path, I2S_INSTALL]"
  by (auto simp: stream_open_def Let_def split: option.splits if_splits)

lemma abort_track_v2:
  "pc s = IN_STREAM TRACK path fl pos n \<Longrightarrow> announce_request s \<Longrightarrow>
   audio_step_v2 pf s = s\<lparr>log := log s @ [STREAM_INTERRUPTED, I2S_UNINSTALL, STREAM_RETURN],
      pc := AT_LOOP_TOP, g_playing := False, playing_track := - 1\<rparr>"
  by (simp add: audio_step_v2_def stream_step_def stream_iter_def stream_returned_v2_def)

lemma announce_next_v2:
  "pc s = AT_LOOP_TOP \<Longrightarrow> announce_request s \<Longrightarrow>
   take (Suc (length (log s))) (log (audio_step_v2 pf s)) =
     log s @ [STREAM_CALL ANNOUNCEMENT (strncpy_path (announce_path s))]
   \<and> \<not> announce_request (audio_step_v2 pf s)"
  by (auto simp: audio_step_v2_def Let_def start_stream_def stream_returned_v2_def
      split: open_result.splits dest!: stream_open_call)

lemma no_track_while_pending_v2:
  "announce_request s \<Longrightarrow> \<not> plays_track (pc s) (new_events s (audio_step_v2 pf s))"
  by (auto simp: audio_step_v2_def Let_def start_stream_def stream_returned_v2_def new_events_def
      plays_track_def stream_step_def stream_iter_def list_ex_iff
      split: open_result.splits audio_pc.splits event.splits dest!: stream_open_call)

lemma announce_bit_nonzero: "NOTIFY_ANNOUNCE_BIT \<noteq> 0"
  by (simp add: NOTIFY_ANNOUNCE_BIT_def)

lemma announce_bit_set: "and (or v NOTIFY_ANNOUNCE_BIT) NOTIFY_ANNOUNCE_BIT \<noteq> 0"
proof -
  have "and (or v NOTIFY_ANNOUNCE_BIT) NOTIFY_ANNOUNCE_BIT = NOTIFY_ANNOUNCE_BIT"
    by (simp add: bit_eq_iff bit_and_iff bit_or_iff)
  then show ?thesis by (simp add: announce_bit_nonzero)
qed

lemma strncpy_path_idem [simp]: "strncpy_path (strncpy_path p) = strncpy_path p"
  by (simp add: strncpy_path_def)

lemma request_then_two_steps_v2:
  assumes "pc s = IN_STREAM TRACK path fl pos n"
  shows "take (length (log s) + 4)
           (log (audio_step_v2 pf (audio_step_v2 pf (request_announcement_v2 (Some p) s)))) =
         log s @ [STREAM_INTERRUPTED, I2S_UNINSTALL, STREAM_RETURN,
                  STREAM_CALL ANNOUNCEMENT (strncpy_path p)]"
proof -
  let ?s1 = "request_announcement_v2 (Some p) s"
  have 1: "pc ?s1 = IN_STREAM TRACK path fl pos n" "announce_request ?s1" "log ?s1 = log s"
    "announce_path ?s1 = strncpy_path p"
    using assms by (simp_all add: request_announcement_v2_def)
  let ?s2 = "audio_step_v2 pf ?s1"
  have 2: "pc ?s2 = AT_LOOP_TOP" "announce_request ?s2"
    "log ?s2 = log s @ [STREAM_INTERRUPTED, I2S_UNINSTALL, STREAM_RETURN]"
    "announce_path ?s2 = strncpy_path p"
    using 1 by (simp_all add: abort_track_v2[OF 1(1,2)])
  have "take (Suc (length (log ?s2))) (log (audio_step_v2 pf ?s2)) =
     log ?s2 @ [STREAM_CALL ANNOUNCEMENT (strncpy_path (announce_path ?s2))]"
    using announce_next_v2[OF 2(1,2)] by blast
  then show ?thesis by (simp add: 2 eval_nat_numeral)
qed

lemma abort_track_rtos:
  "pc s = IN_STREAM TRACK path fl pos n \<Longrightarrow> stop_flag s \<Longrightarrow>
   audio_step_rtos pf s = s\<lparr>log := log s @ [STREAM_INTERRUPTED, I2S_UNINSTALL, STREAM_RETURN],
      pc := AT_LOOP_TOP, g_playing := False, playing_track := - 1\<rparr>"
  by (simp add: audio_step_rtos_def audio_dispatch_rtos_def notify_taken_rtos_def stream_step_def stream_iter_def stream_returned_rtos_def
      after_track_rtos_def)

lemma announce_next_rtos:
  "pc s = AT_LOOP_TOP \<Longrightarrow> notify_pending s \<Longrightarrow> and (notify_value s) NOTIFY_ANNOUNCE_BIT \<noteq> 0 \<Longrightarrow>
   take (Suc (length (log s))) (log (audio_step_rtos pf s)) =
     log s @ [STREAM_CALL ANNOUNCEMENT (strncpy_path (announce_path s))]"
  by (auto simp: audio_step_rtos_def audio_dispatch_rtos_def notify_taken_rtos_def Let_def start_stream_def stream_returned_rtos_def
      split: open_result.splits dest!: stream_open_call)

lemma request_then_two_steps_rtos:
  assumes "pc s = IN_STREAM TRACK path fl pos n" "audio_task_handle s"
  shows "take (length (log s) + 4)
           (log (audio_step_rtos pf (audio_step_rtos pf (request_announcement_rtos (Some p) s)))) =
         log s @ [STREAM_INTERRUPTED, I2S_UNINSTALL, STREAM_RETURN,
                  STREAM_CALL ANNOUNCEMENT (strncpy_path p)]"
proof -
  let ?s1 = "request_announcement_rtos (Some p) s"
  have 1: "pc ?s1 = IN_STREAM TRACK path fl pos n" "stop_flag ?s1" "log ?s1 = log s"
    "announce_path ?s1 = strncpy_path p" "notify_pending ?s1"
    "and (notify_value ?s1) NOTIFY_ANNOUNCE_BIT \<noteq> 0"
    using assms by (simp_all add: request_announcement_rtos_def Let_def announce_bit_nonzero)
  let ?s2 = "audio_step_rtos pf ?s1"
  have 2: "pc ?s2 = AT_LOOP_TOP" "notify_pending ?s2"
    "and (notify_value ?s2) NOTIFY_ANNOUNCE_BIT \<noteq> 0"
    "log ?s2 = log s @ [STREAM_INTERRUPTED, I2S_UNINSTALL, STREAM_RETURN]"
    "announce_path ?s2 = strncpy_path p"
    using 1 by (simp_all add: abort_track_rtos[OF 1(1,2)])
  have "take (Suc (length (log ?s2))) (log (audio_step_rtos pf ?s2)) =
     log ?s2 @ [STREAM_CALL ANNOUNCEMENT (strncpy_path (announce_path ?s2))]"
    using announce_next_rtos[OF 2(1,2,3)] by blast
  then show ?thesis by (simp add: 2 eval_nat_numeral)
qed

lemma strrchr_none: "c \<notin> set xs \<Longrightarrow> strrchr c xs = None"
  by (induction xs) auto

lemma strrchr_last: "c \<notin> set b \<Longrightarrow> strrchr c (folder @ c # b) = Some (length folder)"
  by (induction folder) (auto simp: strrchr_none)

lemma basename_path: "CHR ''/'' \<notin> set b \<Longrightarrow> basename (folder @ CHR ''/'' # b) = b"
  by (simp add: basename_def strrchr_last)

lemma fmt_d_digit: "n < 10 \<Longrightarrow> fmt_d n = [char_of (48 + n)]"
  by (simp add: fmt_d.simps)

lemma isdigit_char: "isdigit c \<Longrightarrow> (of_char c :: nat) - 48 < 10 \<and> char_of (48 + ((of_char c :: nat) - 48)) = c"
  by (auto simp: isdigit_def)

lemma story_number_Some:
  "(ca = CHR ''S'' \<or> ca = CHR ''s'') \<Longrightarrow> isdigit cb \<Longrightarrow>
   story_number (ca # cb # r) = Some (of_char cb - 48)"
  by (simp add: story_number_def)

lemma announce_story_match:
  assumes "CHR ''/'' \<notin> set b" "b = ca # cb # r" "ca = CHR ''S'' \<or> ca = CHR ''s''" "isdigit cb"
  shows "announce_story request pf (folder @ ''/'' @ b) s =
     (if access pf (''/sdcard/story'' @ [cb] @ ''.wav'')
        then request (Some (''/sdcard/story'' @ [cb] @ ''.wav'')) s
      else if length folder < 256 \<and> malloc_ok pf (length folder + 12) \<and>
              access pf (folder @ ''/story'' @ [cb] @ ''.wav'')
        then request (Some (folder @ ''/story'' @ [cb] @ ''.wav'')) s
      else s)"
proof -
  have "basename (folder @ CHR ''/'' # b) = b"
    using assms(1) by (rule basename_path)
  then have sn: "story_number (basename (folder @ CHR ''/'' # b)) = Some (of_char cb - 48)"
    using assms(2-4) by (simp add: story_number_Some)
  have fd: "fmt_d (of_char cb - 48) = [cb]"
    using isdigit_char[OF assms(4)] by (simp add: fmt_d_digit)
  have sl: "strrchr CHR ''/'' (folder @ CHR ''/'' # b) = Some (length folder)"
    using assms(1) by (simp add: strrchr_last)
  have h: "length folder + 12 = Suc (Suc (Suc (Suc (Suc (Suc (Suc (Suc (Suc (Suc (Suc (Suc
             (length folder))))))))))))"
    by simp
  show ?thesis
    by (simp add: announce_story_def sn fd sl Let_def ANNOUNCE_PATH_MAX_def make_path_def h)
qed

lemma announce_story_no_match:
  assumes "CHR ''/'' \<notin> set b"
    "\<And>ca cb r. b = ca # cb # r \<Longrightarrow> \<not> ((ca = CHR ''S'' \<or> ca = CHR ''s'') \<and> isdigit cb)"
  shows "announce_story request pf (folder @ ''/'' @ b) s = s"
proof -
  have "story_number b = None"
    using assms(2) by (auto simp: story_number_def split: list.splits)
  then show ?thesis using assms(1) by (simp add: announce_story_def basename_path)
qed

lemma smod_pos: "0 \<le> (a::int) \<Longrightarrow> 0 < n \<Longrightarrow> a smod n = a mod n"
  by (simp add: signed_modulo_int_def sgn_if)

lemma enc_clk_rtos_file_view:
  assumes "nav_state s = NAV_FILE_VIEW" "0 \<le> current_track s" "current_track s < num_tracks s"
  shows "enc_clk_rtos pf dt s =
     (let cur = (if dt = 0 then (current_track s + 1) mod num_tracks s
                 else (current_track s - 1 + num_tracks s) mod num_tracks s)
      in Some (announce_story request_announcement_rtos pf (wav_list s ! nat cur)
                 (s\<lparr>current_track := cur\<rparr>)))"
proof -
  have n: "0 < num_tracks s" using assms by linarith
  have a: "(current_track s + 1) smod num_tracks s = (current_track s + 1) mod num_tracks s"
    by (rule smod_pos) (use assms n in linarith)+
  have b: "(current_track s - 1 + num_tracks s) smod num_tracks s
         = (current_track s - 1 + num_tracks s) mod num_tracks s"
    by (rule smod_pos) (use assms n in linarith)+
  have r: "0 \<le> x mod num_tracks s \<and> x mod num_tracks s < num_tracks s" for x
    using pos_mod_sign[OF n, of x] pos_mod_bound[OF n, of x] by blast
  have ne: "wav_list s \<noteq> []" using n by auto
  have nf: "nav_state s \<noteq> NAV_HOME" "nav_state s \<noteq> NAV_FOLDER_VIEW" using assms(1) by simp_all
  show ?thesis
    unfolding enc_clk_rtos_def Let_def a b nth_opt_def
    using nf ne r by simp
qed



lemma no_stream_call_rtos:
  assumes "pc s \<noteq> AT_LOOP_TOP \<or> \<not> notify_pending s"
  shows "STREAM_CALL k q \<notin> set (new_events s (audio_step_rtos pf s))"
  using assms
  by (auto simp: audio_step_rtos_def audio_dispatch_rtos_def notify_taken_rtos_def new_events_def stream_step_def
           split: audio_pc.splits iter_result.splits)

lemma no_stream_call_v1:
  assumes "pc s \<noteq> AT_LOOP_TOP"
  shows "STREAM_CALL k q \<notin> set (new_events s (audio_step_v1 pf s))"
  using assms
  by (auto simp: audio_step_v1_def new_events_def end_stream_v1_def Let_def
           split: audio_pc.splits)

lemma fmt_d_1: "fmt_d (Suc 0) = ''1''"
  by code_simp

lemma parse_demo_wav:
  "parse_wav_header demo_wav =
     Some \<lparr>sample_rate = 8000, bits_per_sample = 16, channels = 1, data_size = 4,
           data_offset = 44\<rparr>"
  by (simp add: parse_wav_header_def demo_wav_def bytes_of_def le16_def le32_def Let_def)

lemma stream_open_demo:
  "stream_open demo_card k ''/sdcard/01/S1.wav'' =
     OPENED [STREAM_CALL k ''/sdcard/01/S1.wav'', I2S_INSTALL] demo_wav 44 2048"
  by (simp add: stream_open_def demo_card_def parse_demo_wav)

lemma parse_silent_wav:
  "parse_wav_header (take 44 demo_wav) =
     Some \<lparr>sample_rate = 8000, bits_per_sample = 16, channels = 1, data_size = 4,
           data_offset = 44\<rparr>"
  by (simp add: parse_wav_header_def demo_wav_def bytes_of_def le16_def le32_def Let_def)

lemma stream_open_silent:
  "stream_open card_silent k ''/sdcard/01/S1.wav'' =
     OPENED [STREAM_CALL k ''/sdcard/01/S1.wav'', I2S_INSTALL] (take 44 demo_wav) 44 2048"
  by (simp add: stream_open_def card_silent_def demo_card_def parse_silent_wav)

lemma stream_open_removed:
  "stream_open card_removed k path = OPEN_FAILED [STREAM_CALL k path, STREAM_FAIL NOT_FOUND]"
  by (simp add: stream_open_def card_removed_def)

lemma boot_demo:
  "app_main_boot_rtos demo_card =
     initial_rtos\<lparr>folder_list := [''/sdcard/01''], audio_task_handle := True\<rparr>"
  by (simp add: app_main_boot_rtos_def demo_card_def scan_root_folders_def free_folder_list_def
      initial_rtos_def dir_entry_def MAX_FOLDERS_def make_path_def Let_def basename_def
      strcasecmp_eq_def tolower_def)

lemmas demo_step_defs =
  sys_step_rtos_def main_loop_rtos_def read_button_press_def buttons_def
  play_pause_rtos_def home_rtos_def vol_up_def vol_down_def DEBOUNCE_MS_def Let_def
  enter_folder_rtos_def nth_opt_def announce_stories_def announce_story_def basename_def
  strcasecmp_eq_def tolower_def make_path_def scan_wavs_in_folder_def free_wav_list_def
  wav_entry_def MAX_WAV_FILES_def has_wav_ext_def story_number_def isdigit_def fmt_d_1
  request_announcement_rtos_def strncpy_path_def ANNOUNCE_PATH_MAX_def NOTIFY_ANNOUNCE_BIT_def
  file_view_play_rtos_def notify_play_rtos_def

lemma run_demo_presses:
  "run_rtos demo_card (app_main_boot_rtos demo_card) demo_presses = Some demo_rtos_requested"
  unfolding boot_demo demo_presses_def demo_rtos_requested_def
  by (simp add: demo_step_defs initial_rtos_def demo_card_def)

lemma run_rtos_append:
  "run_rtos pf s (xs @ ys) = (case run_rtos pf s xs of None \<Rightarrow> None | Some s' \<Rightarrow> run_rtos pf s' ys)"
  by (induction xs arbitrary: s) (auto split: option.splits)

lemma run_demo_audio:
  "run_rtos demo_card demo_rtos_requested [AUDIO, AUDIO] = Some demo_rtos_playing"
  unfolding demo_rtos_requested_def demo_rtos_playing_def
  by (simp add: sys_step_rtos_def initial_rtos_def audio_step_rtos_def audio_dispatch_rtos_def notify_taken_rtos_def start_stream_def
      stream_open_demo stream_step_def stream_iter_def demo_wav_def bytes_of_def Let_def
      NOTIFY_ANNOUNCE_BIT_def)

lemma run_demo_inputs:
  "run_rtos demo_card (app_main_boot_rtos demo_card) demo_inputs = Some demo_rtos_playing"
  unfolding demo_inputs_def run_rtos_append run_demo_presses
  by (simp only: option.case run_demo_audio)

lemma demo_rtos_playing_fields:
  "nav_state demo_rtos_playing = NAV_FILE_VIEW" "g_playing demo_rtos_playing"
  "playing_track demo_rtos_playing = 0" "current_track demo_rtos_playing = 0"
  "wav_list demo_rtos_playing = [''/sdcard/01/S1.wav'']" "audio_task_handle demo_rtos_playing"
  "\<not> stop_flag demo_rtos_playing" "\<not> notify_pending demo_rtos_playing"
  "\<not> g_pause demo_rtos_playing" "g_volume_percent demo_rtos_playing = 100"
  "pc demo_rtos_playing = IN_STREAM TRACK ''/sdcard/01/S1.wav'' demo_wav 48 2048"
  "log demo_rtos_playing =
     [STREAM_CALL TRACK ''/sdcard/01/S1.wav'', I2S_INSTALL, I2S_WRITE [1, 0, 2, 0]]"
  by (simp_all add: demo_rtos_playing_def demo_rtos_requested_def initial_rtos_def)

lemma demo_rtos_requested_fields:
  "nav_state demo_rtos_requested = NAV_FILE_VIEW" "g_playing demo_rtos_requested"
  "playing_track demo_rtos_requested = 0" "current_track demo_rtos_requested = 0"
  "wav_list demo_rtos_requested = [''/sdcard/01/S1.wav'']" "audio_task_handle demo_rtos_requested"
  "notify_pending demo_rtos_requested" "notify_value demo_rtos_requested = 1"
  "pc demo_rtos_requested = AT_LOOP_TOP" "log demo_rtos_requested = []"
  by (simp_all add: demo_rtos_requested_def initial_rtos_def)

lemma demo_wav_length: "length demo_wav = 48"
  by (simp add: demo_wav_def bytes_of_def)

lemma demo_v2_playing_fields:
  "pc demo_v2_playing = IN_STREAM TRACK ''/sdcard/01/S1.wav'' demo_wav 44 2048"
  "log demo_v2_playing = [STREAM_CALL TRACK ''/sdcard/01/S1.wav'', I2S_INSTALL]"
  "\<not> announce_request demo_v2_playing"
  by (simp_all add: demo_v2_playing_def)

lemma demo_v1_at_eof_fields:
  "nav_state demo_v1_at_eof = NAV_FILE_VIEW" "g_playing demo_v1_at_eof"
  "playing_track demo_v1_at_eof = 0" "current_track demo_v1_at_eof = 0"
  "wav_list demo_v1_at_eof = [''/sdcard/01/S1.wav'']" "\<not> g_pause demo_v1_at_eof"
  "\<not> track_change_request demo_v1_at_eof" "\<not> g_stop_and_rewind demo_v1_at_eof"
  "pc demo_v1_at_eof = IN_STREAM TRACK ''/sdcard/01/S1.wav'' demo_wav 48 2048"
  "log demo_v1_at_eof =
     [STREAM_CALL TRACK ''/sdcard/01/S1.wav'', I2S_INSTALL, I2S_WRITE [1, 0, 2, 0]]"
  by (simp_all add: demo_v1_at_eof_def demo_v1_def)

lemma demo_data_end: "take 2048 (drop 48 demo_wav) = []"
  by (simp add: demo_wav_def bytes_of_def)

lemma demo_data_start: "take 2048 (drop 44 demo_wav) = [1, 0, 2, 0]"
  by (simp add: demo_wav_def bytes_of_def)


lemma announcement_open_failed_rtos:
  assumes "pc s = AT_LOOP_TOP" "notify_pending s" "and (notify_value s) NOTIFY_ANNOUNCE_BIT \<noteq> 0"
    "stream_open pf ANNOUNCEMENT (take 255 (announce_path s)) = OPEN_FAILED evs"
  shows "audio_step_rtos pf s =
         s\<lparr>notify_value := 0, notify_pending := False, stop_flag := False, log := log s @ evs\<rparr>"
  using assms
  by (simp add: audio_step_rtos_def audio_dispatch_rtos_def notify_taken_rtos_def Let_def start_stream_def stream_returned_rtos_def
      strncpy_path_def ANNOUNCE_PATH_MAX_def)

lemma encoder_iter_sw_keeps_step_timer:
  assumes "evt_type ev = ENC_EVT_SW" "encoder_iter on_clk on_sw now ev (l, s) = Some (l2, s2)"
  shows "last_step_time l2 = last_step_time l"
  using assms by (auto simp: encoder_iter_def split: if_splits)

lemma encoder_iter_clk_keeps_sw_timer:
  assumes "evt_type ev = ENC_EVT_CLK" "encoder_iter on_clk on_sw now ev (l, s) = Some (l2, s2)"
  shows "last_sw_time l2 = last_sw_time l"
  using assms by (auto simp: encoder_iter_def split: if_splits)

lemma boot_duo:
  "app_main_boot_rtos duo_card =
     initial_rtos\<lparr>folder_list := [''/sdcard/01''], audio_task_handle := True\<rparr>"
  by (simp add: app_main_boot_rtos_def duo_card_def scan_root_folders_def free_folder_list_def
      initial_rtos_def dir_entry_def MAX_FOLDERS_def make_path_def Let_def basename_def
      strcasecmp_eq_def tolower_def)

lemma stream_open_duo:
  "p = ''/sdcard/01/S1.wav'' \<or> p = ''/sdcard/01/S2.wav'' \<Longrightarrow>
   stream_open duo_card k p = OPENED [STREAM_CALL k p, I2S_INSTALL] demo_wav 44 2048"
  by (auto simp add: stream_open_def duo_card_def parse_demo_wav)

lemma run_duo_presses:
  "run_rtos duo_card (app_main_boot_rtos duo_card) demo_presses =
     Some (initial_rtos\<lparr>folder_list := [''/sdcard/01''], audio_task_handle := True,
       nav_state := NAV_FILE_VIEW, wav_list := [''/sdcard/01/S1.wav'', ''/sdcard/01/S2.wav''],
       playing_track := 0, g_playing := True, stop_flag := True,
       notify_value := 1, notify_pending := True,
       btn_play := \<lparr>last_time = 3000, last_state = False\<rparr>\<rparr>)"
  unfolding boot_duo demo_presses_def
  by (simp add: demo_step_defs initial_rtos_def duo_card_def)

lemma run_duo_audio:
  "run_rtos duo_card (initial_rtos\<lparr>folder_list := [''/sdcard/01''], audio_task_handle := True,
       nav_state := NAV_FILE_VIEW, wav_list := [''/sdcard/01/S1.wav'', ''/sdcard/01/S2.wav''],
       playing_track := 0, g_playing := True, stop_flag := True,
       notify_value := 1, notify_pending := True,
       btn_play := \<lparr>last_time = 3000, last_state = False\<rparr>\<rparr>) [AUDIO, AUDIO] = Some duo_playing"
  unfolding duo_playing_def
  by (simp add: sys_step_rtos_def initial_rtos_def audio_step_rtos_def audio_dispatch_rtos_def
      notify_taken_rtos_def start_stream_def
      stream_open_duo stream_step_def stream_iter_def demo_wav_def bytes_of_def Let_def
      NOTIFY_ANNOUNCE_BIT_def)

lemma run_duo_inputs:
  "run_rtos duo_card (app_main_boot_rtos duo_card) demo_inputs = Some duo_playing"
  unfolding demo_inputs_def run_rtos_append run_duo_presses
  by (simp only: option.case run_duo_audio)

lemma duo_playing_fields:
  "nav_state duo_playing = NAV_FILE_VIEW" "g_playing duo_playing"
  "playing_track duo_playing = 0" "current_track duo_playing = 0"
  "wav_list duo_playing = [''/sdcard/01/S1.wav'', ''/sdcard/01/S2.wav'']"
  "audio_task_handle duo_playing" "enc duo_playing = \<lparr>last_step_time = 0, last_sw_time = 0\<rparr>"
  by (simp_all add: duo_playing_def initial_rtos_def)

lemma fmt_d_2: "fmt_d 2 = ''2''"
  by code_simp

lemma run_duo_step:
  "run_rtos duo_card duo_playing [ENCODER 4000 clk] = Some duo_requested"
proof -
  have "enc_clk_rtos duo_card 0 duo_playing =
      Some (duo_playing\<lparr>current_track := 1, announce_path := ''/sdcard/story2.wav'',
              stop_flag := True, notify_value := NOTIFY_ANNOUNCE_BIT, notify_pending := True\<rparr>)"
    by (simp add: enc_clk_rtos_file_view duo_playing_fields Let_def announce_story_def
        basename_def story_number_def isdigit_def fmt_d_2 duo_card_def ANNOUNCE_PATH_MAX_def
        request_announcement_rtos_def strncpy_path_def)
       (simp add: duo_playing_def initial_rtos_def)
  then show ?thesis
    by (simp add: sys_step_rtos_def encoder_iter_def clk_def duo_playing_fields
        ENC_STEP_DEBOUNCE_MS_def duo_requested_def)
qed

lemma run_duo_play:
  "run_rtos duo_card duo_requested
     [MAIN_LOOP (buttons True False False False 5000), AUDIO, AUDIO, AUDIO, AUDIO, AUDIO] =
   Some duo_final"
  unfolding duo_requested_def duo_final_def duo_playing_def
  by (simp add: demo_step_defs initial_rtos_def sys_step_rtos_def audio_step_rtos_def
      audio_dispatch_rtos_def notify_taken_rtos_def start_stream_def stream_open_duo
      stream_step_def stream_iter_def stream_returned_rtos_def after_track_rtos_def
      demo_wav_length demo_data_end demo_data_start)

lemma play_next_rtos:
  assumes "pc v = AT_LOOP_TOP" "notify_pending v" "notify_value v = word_of_int (idx + 1)"
    "0 \<le> idx" "idx < num_tracks v" "num_tracks v \<le> 64"
  shows "take (Suc (length (log v))) (log (audio_step_rtos pf v)) =
         log v @ [STREAM_CALL TRACK (wav_list v ! nat idx)]"
proof -
  have i: "idx < 64" using assms by simp
  note pv = play_value[OF assms(4) i]
  show ?thesis
    using assms pv
    by (auto simp: audio_step_rtos_def audio_dispatch_rtos_def notify_taken_rtos_def Let_def
        start_stream_def stream_returned_rtos_def after_track_rtos_def
        split: open_result.splits dest!: stream_open_call)
qed

lemma play_replaces_announce_bit_rtos:
  assumes "audio_task_handle u" "g_playing u \<longrightarrow> playing_track u \<noteq> current_track u"
    "\<not> g_playing u \<longrightarrow> 0 < num_tracks u"
  shows "notify_value (file_view_play_rtos (request_announcement_rtos (Some p) u)) =
           word_of_int (current_track u + 1)"
    and "notify_pending (file_view_play_rtos (request_announcement_rtos (Some p) u))"
    and "announce_path (file_view_play_rtos (request_announcement_rtos (Some p) u)) =
           strncpy_path p"
  using assms
  by (auto simp: file_view_play_rtos_def notify_play_rtos_def request_announcement_rtos_def Let_def)

text \<open>
  The two parts of the top of the audio task's loop with a request between them: the
  notification of a play request has been taken, \<^verbatim>\<open>request_announcement\<close> runs, and the loop
  body then clears the stop flag and opens the track with the announce bit pending.
\<close>

lemma request_between_wait_and_dispatch_rtos:
  "audio_dispatch_rtos demo_card 1
     (request_announcement_rtos (Some ''/sdcard/story1.wav'')
        (notify_taken_rtos demo_rtos_requested)) =
   demo_rtos_requested\<lparr>stop_flag := False, notify_value := NOTIFY_ANNOUNCE_BIT,
     notify_pending := True, log := [STREAM_CALL TRACK ''/sdcard/01/S1.wav'', I2S_INSTALL],
     pc := IN_STREAM TRACK ''/sdcard/01/S1.wav'' demo_wav 44 2048\<rparr>"
  by (simp add: audio_dispatch_rtos_def notify_taken_rtos_def request_announcement_rtos_def
      demo_rtos_requested_def initial_rtos_def strncpy_path_def ANNOUNCE_PATH_MAX_def Let_def
      start_stream_def stream_open_demo)
     (simp add: NOTIFY_ANNOUNCE_BIT_def)

section \<open>The claims\<close>

text \<open>
  Claim C1, as amended. In \<^verbatim>\<open>noor_v2\<close>, when an announcement is requested while a track
  is being streamed, the track's stream stops (with the interrupted message, the output
  uninstalled and the call returned) before the stream call of the announcement begins:
  the request followed by two steps of the audio task extends the trace by the end of the
  track's stream and then the call for the announcement; the step that ends the track
  clears the playing state, so the track is not taken up again; and a step taken while
  \<^verbatim>\<open>announce_request\<close> is set neither starts a track stream nor writes a chunk of one.
  In \<^verbatim>\<open>Noor_RTOS_version\<close>, a request raised while the chunk loop of a track stream runs,
  followed by two steps of the audio task, likewise ends the track's stream and then calls
  the announcement. A play request posted after the announcement request and before the
  audio task has taken the notification replaces the notification value, announce bit
  included, by the number of the selected track; the audio task then calls the stream of
  that track. A step of the audio task is one arbiter decision or one round of the chunk
  loop, as in the definitions.
\<close>

theorem announcement_preempts_track:
  "(pc s = IN_STREAM TRACK path fl pos n \<longrightarrow>
      take (length (log s) + 4)
        (log (audio_step_v2 pf (audio_step_v2 pf (request_announcement_v2 (Some p) s)))) =
      log s @ [STREAM_INTERRUPTED, I2S_UNINSTALL, STREAM_RETURN,
               STREAM_CALL ANNOUNCEMENT (take 255 p)])
   \<and> (pc t = IN_STREAM TRACK path fl pos n \<and> announce_request t \<longrightarrow>
        audio_step_v2 pf t =
          t\<lparr>log := log t @ [STREAM_INTERRUPTED, I2S_UNINSTALL, STREAM_RETURN],
            pc := AT_LOOP_TOP, g_playing := False, playing_track := - 1\<rparr>)
   \<and> (announce_request t \<longrightarrow> \<not> plays_track (pc t) (new_events t (audio_step_v2 pf t)))
   \<and> (pc r = IN_STREAM TRACK path fl pos n \<and> audio_task_handle r \<longrightarrow>
        take (length (log r) + 4)
          (log (audio_step_rtos pf (audio_step_rtos pf (request_announcement_rtos (Some p) r)))) =
        log r @ [STREAM_INTERRUPTED, I2S_UNINSTALL, STREAM_RETURN,
                 STREAM_CALL ANNOUNCEMENT (take 255 p)])
   \<and> (audio_task_handle u \<and> (g_playing u \<longrightarrow> playing_track u \<noteq> current_track u) \<and>
        (\<not> g_playing u \<longrightarrow> 0 < num_tracks u) \<and> 0 \<le> current_track u \<and> current_track u < 64 \<longrightarrow>
        notify_value (file_view_play_rtos (request_announcement_rtos (Some p) u)) =
          word_of_int (current_track u + 1) \<and>
        and (word_of_int (current_track u + 1)) NOTIFY_ANNOUNCE_BIT = 0 \<and>
        notify_pending (file_view_play_rtos (request_announcement_rtos (Some p) u)))
   \<and> (pc v = AT_LOOP_TOP \<and> notify_pending v \<and> notify_value v = word_of_int (idx + 1) \<and>
        0 \<le> idx \<and> idx < num_tracks v \<and> num_tracks v \<le> 64 \<longrightarrow>
        take (Suc (length (log v))) (log (audio_step_rtos pf v)) =
          log v @ [STREAM_CALL TRACK (wav_list v ! nat idx)])"
proof -
  have c1: "pc s = IN_STREAM TRACK path fl pos n \<longrightarrow>
      take (length (log s) + 4)
        (log (audio_step_v2 pf (audio_step_v2 pf (request_announcement_v2 (Some p) s)))) =
      log s @ [STREAM_INTERRUPTED, I2S_UNINSTALL, STREAM_RETURN,
               STREAM_CALL ANNOUNCEMENT (take 255 p)]"
    using request_then_two_steps_v2[of s path fl pos n pf p]
    by (simp add: strncpy_path_def ANNOUNCE_PATH_MAX_def)
  have c2: "pc t = IN_STREAM TRACK path fl pos n \<and> announce_request t \<longrightarrow>
        audio_step_v2 pf t =
          t\<lparr>log := log t @ [STREAM_INTERRUPTED, I2S_UNINSTALL, STREAM_RETURN],
            pc := AT_LOOP_TOP, g_playing := False, playing_track := - 1\<rparr>"
    using abort_track_v2[of t path fl pos n pf] by simp
  have c3: "announce_request t \<longrightarrow> \<not> plays_track (pc t) (new_events t (audio_step_v2 pf t))"
    using no_track_while_pending_v2[of t pf] by simp
  have c4: "pc r = IN_STREAM TRACK path fl pos n \<and> audio_task_handle r \<longrightarrow>
        take (length (log r) + 4)
          (log (audio_step_rtos pf (audio_step_rtos pf (request_announcement_rtos (Some p) r)))) =
        log r @ [STREAM_INTERRUPTED, I2S_UNINSTALL, STREAM_RETURN,
                 STREAM_CALL ANNOUNCEMENT (take 255 p)]"
    using request_then_two_steps_rtos[of r path fl pos n pf p]
    by (simp add: strncpy_path_def ANNOUNCE_PATH_MAX_def)
  have c5: "audio_task_handle u \<and> (g_playing u \<longrightarrow> playing_track u \<noteq> current_track u) \<and>
        (\<not> g_playing u \<longrightarrow> 0 < num_tracks u) \<and> 0 \<le> current_track u \<and> current_track u < 64 \<longrightarrow>
        notify_value (file_view_play_rtos (request_announcement_rtos (Some p) u)) =
          word_of_int (current_track u + 1) \<and>
        and (word_of_int (current_track u + 1)) NOTIFY_ANNOUNCE_BIT = 0 \<and>
        notify_pending (file_view_play_rtos (request_announcement_rtos (Some p) u))"
    using play_replaces_announce_bit_rtos[of u p] play_value(1)[of "current_track u"]
    by blast
  have c6: "pc v = AT_LOOP_TOP \<and> notify_pending v \<and> notify_value v = word_of_int (idx + 1) \<and>
        0 \<le> idx \<and> idx < num_tracks v \<and> num_tracks v \<le> 64 \<longrightarrow>
        take (Suc (length (log v))) (log (audio_step_rtos pf v)) =
          log v @ [STREAM_CALL TRACK (wav_list v ! nat idx)]"
    using play_next_rtos[of v idx pf] by blast
  show ?thesis
    by (intro conjI c1 c2 c3 c4 c5 c6)
qed

theorem announcement_preempts_track_witness:
  "pc demo_v2_playing = IN_STREAM TRACK ''/sdcard/01/S1.wav'' demo_wav 44 2048
   \<and> take 6 (log (audio_step_v2 demo_card (audio_step_v2 demo_card
               (request_announcement_v2 (Some ''/sdcard/story1.wav'') demo_v2_playing)))) =
       [STREAM_CALL TRACK ''/sdcard/01/S1.wav'', I2S_INSTALL,
        STREAM_INTERRUPTED, I2S_UNINSTALL, STREAM_RETURN,
        STREAM_CALL ANNOUNCEMENT ''/sdcard/story1.wav'']
   \<and> announce_request (request_announcement_v2 (Some ''/sdcard/story1.wav'') demo_v2_playing)
   \<and> \<not> plays_track (pc demo_v2_playing)
         (new_events (request_announcement_v2 (Some ''/sdcard/story1.wav'') demo_v2_playing)
            (audio_step_v2 demo_card
               (request_announcement_v2 (Some ''/sdcard/story1.wav'') demo_v2_playing)))
   \<and> pc demo_rtos_playing = IN_STREAM TRACK ''/sdcard/01/S1.wav'' demo_wav 48 2048
   \<and> audio_task_handle demo_rtos_playing
   \<and> take 7 (log (audio_step_rtos demo_card (audio_step_rtos demo_card
               (request_announcement_rtos (Some ''/sdcard/story1.wav'') demo_rtos_playing)))) =
       [STREAM_CALL TRACK ''/sdcard/01/S1.wav'', I2S_INSTALL, I2S_WRITE [1, 0, 2, 0],
        STREAM_INTERRUPTED, I2S_UNINSTALL, STREAM_RETURN,
        STREAM_CALL ANNOUNCEMENT ''/sdcard/story1.wav'']
   \<and> notify_value (file_view_play_rtos
         (request_announcement_rtos (Some ''/sdcard/story1.wav'')
            (demo_rtos_playing\<lparr>g_playing := False\<rparr>))) = 1
   \<and> take 1 (log (audio_step_rtos demo_card demo_rtos_requested)) =
       [STREAM_CALL TRACK ''/sdcard/01/S1.wav'']"
proof -
  let ?t = "request_announcement_v2 (Some ''/sdcard/story1.wav'') demo_v2_playing"
  have t: "pc ?t = IN_STREAM TRACK ''/sdcard/01/S1.wav'' demo_wav 44 2048"
    "announce_request ?t"
    by (simp_all add: request_announcement_v2_def demo_v2_playing_fields)
  note a = announcement_preempts_track[where s = demo_v2_playing and t = ?t
          and r = demo_rtos_playing and path = "''/sdcard/01/S1.wav''" and fl = demo_wav
          and pos = 44 and n = 2048 and pf = demo_card and p = "''/sdcard/story1.wav''"
          and u = "demo_rtos_playing\<lparr>g_playing := False\<rparr>" and v = demo_rtos_requested
          and idx = 0]
  have 1: "take 6 (log (audio_step_v2 demo_card (audio_step_v2 demo_card ?t))) =
       [STREAM_CALL TRACK ''/sdcard/01/S1.wav'', I2S_INSTALL,
        STREAM_INTERRUPTED, I2S_UNINSTALL, STREAM_RETURN,
        STREAM_CALL ANNOUNCEMENT ''/sdcard/story1.wav'']"
    using a by (simp add: demo_v2_playing_fields)
  have 2: "\<not> plays_track (pc demo_v2_playing) (new_events ?t (audio_step_v2 demo_card ?t))"
  proof -
    have "\<not> plays_track (pc ?t) (new_events ?t (audio_step_v2 demo_card ?t))"
      using a t(2) by blast
    then show ?thesis by (simp add: t(1) demo_v2_playing_fields(1))
  qed
  note b = announcement_preempts_track[where r = demo_rtos_playing
          and s = demo_v2_playing and t = demo_v2_playing
          and path = "''/sdcard/01/S1.wav''" and fl = demo_wav
          and pos = 48 and n = 2048 and pf = demo_card and p = "''/sdcard/story1.wav''"
          and u = "demo_rtos_playing\<lparr>g_playing := False\<rparr>" and v = demo_rtos_requested
          and idx = 0]
  have 3: "take 7 (log (audio_step_rtos demo_card (audio_step_rtos demo_card
               (request_announcement_rtos (Some ''/sdcard/story1.wav'') demo_rtos_playing)))) =
       [STREAM_CALL TRACK ''/sdcard/01/S1.wav'', I2S_INSTALL, I2S_WRITE [1, 0, 2, 0],
        STREAM_INTERRUPTED, I2S_UNINSTALL, STREAM_RETURN,
        STREAM_CALL ANNOUNCEMENT ''/sdcard/story1.wav'']"
    using b by (simp add: demo_rtos_playing_fields)
  have 4: "notify_value (file_view_play_rtos
         (request_announcement_rtos (Some ''/sdcard/story1.wav'')
            (demo_rtos_playing\<lparr>g_playing := False\<rparr>))) = 1"
    using b by (simp add: demo_rtos_playing_fields)
  have 5: "take 1 (log (audio_step_rtos demo_card demo_rtos_requested)) =
       [STREAM_CALL TRACK ''/sdcard/01/S1.wav'']"
    using b by (simp add: demo_rtos_requested_fields)
  show ?thesis
    using 1 2 3 4 5 t by (simp add: demo_v2_playing_fields demo_rtos_playing_fields)
qed

text \<open>
  Claim C1 as it was stated fails on \<^verbatim>\<open>Noor_RTOS_version\<close>. From boot, \<^verbatim>\<open>S1.wav\<close> is
  playing; an encoder step selects \<^verbatim>\<open>S2.wav\<close> and requests the announcement
  \<^verbatim>\<open>story2.wav\<close>; a Play/Pause press follows before the audio task runs again. The
  stream of \<^verbatim>\<open>S1.wav\<close> is interrupted, \<^verbatim>\<open>S2.wav\<close> is streamed to its end, the audio task is
  back at its wait with no notification pending, and the announcement was never called.
\<close>

theorem play_request_drops_announcement:
  "run_rtos duo_card (app_main_boot_rtos duo_card) (demo_inputs @ [ENCODER 4000 clk]) =
     Some duo_requested
   \<and> pc duo_requested = IN_STREAM TRACK ''/sdcard/01/S1.wav'' demo_wav 48 2048
   \<and> notify_pending duo_requested
   \<and> notify_value duo_requested = NOTIFY_ANNOUNCE_BIT
   \<and> stop_flag duo_requested
   \<and> announce_path duo_requested = ''/sdcard/story2.wav''
   \<and> run_rtos duo_card duo_requested
        [MAIN_LOOP (buttons True False False False 5000), AUDIO, AUDIO, AUDIO, AUDIO, AUDIO] =
      Some duo_final
   \<and> log duo_final =
       [STREAM_CALL TRACK ''/sdcard/01/S1.wav'', I2S_INSTALL, I2S_WRITE [1, 0, 2, 0],
        STREAM_INTERRUPTED, I2S_UNINSTALL, STREAM_RETURN,
        STREAM_CALL TRACK ''/sdcard/01/S2.wav'', I2S_INSTALL, I2S_WRITE [1, 0, 2, 0],
        I2S_UNINSTALL, STREAM_RETURN]
   \<and> pc duo_final = AT_LOOP_TOP
   \<and> \<not> notify_pending duo_final"
proof -
  have 1: "run_rtos duo_card (app_main_boot_rtos duo_card) (demo_inputs @ [ENCODER 4000 clk]) =
     Some duo_requested"
    unfolding run_rtos_append[of _ _ demo_inputs] run_duo_inputs
    by (simp only: option.case run_duo_step)
  have 2: "pc duo_requested = IN_STREAM TRACK ''/sdcard/01/S1.wav'' demo_wav 48 2048"
    "notify_pending duo_requested" "notify_value duo_requested = NOTIFY_ANNOUNCE_BIT"
    "stop_flag duo_requested" "announce_path duo_requested = ''/sdcard/story2.wav''"
    by (simp_all add: duo_requested_def duo_playing_def)
  have 3: "log duo_final =
       [STREAM_CALL TRACK ''/sdcard/01/S1.wav'', I2S_INSTALL, I2S_WRITE [1, 0, 2, 0],
        STREAM_INTERRUPTED, I2S_UNINSTALL, STREAM_RETURN,
        STREAM_CALL TRACK ''/sdcard/01/S2.wav'', I2S_INSTALL, I2S_WRITE [1, 0, 2, 0],
        I2S_UNINSTALL, STREAM_RETURN]"
    "pc duo_final = AT_LOOP_TOP" "\<not> notify_pending duo_final"
    by (simp_all add: duo_final_def)
  show ?thesis
    using 1 2 3 run_duo_play by blast
qed

text \<open>
  Claim C2. In every state \<^verbatim>\<open>Noor_RTOS_version\<close> reaches from boot, by any sequence of
  main-loop rounds, encoder events and audio-task steps, the trace of calls on the I2S
  output has no install while the output is installed and no write or uninstall while it is
  not; and the output is installed exactly while the audio task is inside its one open
  stream. So a stream is configured only after the one before it has released the output,
  and at most one stream is rendered at a time.
\<close>

theorem one_stream_at_a_time:
  "run_rtos pf (app_main_boot_rtos pf) inputs = Some s \<Longrightarrow>
   i2s_exclusive False (log s) \<and> (i2s_busy False (log s) \<longleftrightarrow> pc s \<noteq> AT_LOOP_TOP)"
  using run_rtos_inv[of pf "app_main_boot_rtos pf" inputs s] boot_rtos_inv[of pf]
  by (simp add: audio_inv_def)

theorem one_stream_at_a_time_witness:
  "run_rtos demo_card (app_main_boot_rtos demo_card) demo_inputs = Some demo_rtos_playing
   \<and> i2s_exclusive False
        [STREAM_CALL TRACK ''/sdcard/01/S1.wav'', I2S_INSTALL, I2S_WRITE [1, 0, 2, 0]]
   \<and> i2s_busy False
        [STREAM_CALL TRACK ''/sdcard/01/S1.wav'', I2S_INSTALL, I2S_WRITE [1, 0, 2, 0]]"
  using one_stream_at_a_time[OF run_demo_inputs]
  by (simp add: run_demo_inputs demo_rtos_playing_fields)



text \<open>
  Claim C4. In the file view, a Play/Pause press or an encoder switch press while the
  selected track is the one marked playing only toggles the pause flag: no play request
  is posted (\<^verbatim>\<open>Noor_RTOS_version\<close>: no notification, no stop flag; \<^verbatim>\<open>noor_v1\<close>: no
  \<^verbatim>\<open>track_change_request\<close>), and the next step of the audio task calls no stream. A press
  posts a play request only when nothing is marked playing or the selected track is
  another one; with a track in the list it then posts the request for the selected track.
\<close>

theorem same_track_toggles_pause:
  "(nav_state s = NAV_FILE_VIEW \<and> g_playing s \<and> playing_track s = current_track s \<longrightarrow>
      play_pause_rtos pf s = Some (s\<lparr>g_pause := \<not> g_pause s\<rparr>) \<and>
      enc_sw_rtos pf s = Some (s\<lparr>g_pause := \<not> g_pause s\<rparr>) \<and>
      (pc s \<noteq> AT_LOOP_TOP \<or> \<not> notify_pending s \<longrightarrow>
         (\<forall>k q. STREAM_CALL k q \<notin> set (new_events (s\<lparr>g_pause := \<not> g_pause s\<rparr>)
                    (audio_step_rtos pf (s\<lparr>g_pause := \<not> g_pause s\<rparr>))))))
   \<and> (nav_state t = NAV_FILE_VIEW \<and> (play_pause_rtos pf t = Some t' \<or> enc_sw_rtos pf t = Some t') \<and>
        ((notify_pending t' \<and> \<not> notify_pending t) \<or> (stop_flag t' \<and> \<not> stop_flag t) \<or>
         notify_value t' \<noteq> notify_value t) \<longrightarrow>
        \<not> g_playing t \<or> playing_track t \<noteq> current_track t)
   \<and> (nav_state u = NAV_FILE_VIEW \<and> \<not> (g_playing u \<and> playing_track u = current_track u) \<and>
        num_tracks u > 0 \<and> audio_task_handle u \<longrightarrow>
        play_pause_rtos pf u =
          Some (u\<lparr>playing_track := current_track u, g_playing := True, g_pause := False,
                  stop_flag := True, notify_value := word_of_int (current_track u + 1),
                  notify_pending := True\<rparr>) \<and>
        enc_sw_rtos pf u = play_pause_rtos pf u)
   \<and> (nav_state w = NAV_FILE_VIEW \<and> g_playing w \<and> playing_track w = current_track w \<longrightarrow>
        play_pause_v1 pf w = Some (w\<lparr>g_pause := \<not> g_pause w\<rparr>) \<and>
        enc_sw_v1 pf w = Some (w\<lparr>g_pause := \<not> g_pause w\<rparr>) \<and>
        (pc w \<noteq> AT_LOOP_TOP \<longrightarrow>
           (\<forall>k q. STREAM_CALL k q \<notin> set (new_events (w\<lparr>g_pause := \<not> g_pause w\<rparr>)
                      (audio_step_v1 pf (w\<lparr>g_pause := \<not> g_pause w\<rparr>))))))
   \<and> (nav_state x = NAV_FILE_VIEW \<and> (play_pause_v1 pf x = Some x' \<or> enc_sw_v1 pf x = Some x') \<and>
        track_change_request x' \<and> \<not> track_change_request x \<longrightarrow>
        \<not> g_playing x \<or> playing_track x \<noteq> current_track x)
   \<and> (nav_state y = NAV_FILE_VIEW \<and> \<not> (g_playing y \<and> playing_track y = current_track y) \<and>
        num_tracks y > 0 \<longrightarrow>
        play_pause_v1 pf y =
          Some (y\<lparr>playing_track := current_track y, g_playing := True, g_pause := False,
                  track_change_request := True\<rparr>) \<and>
        enc_sw_v1 pf y = play_pause_v1 pf y)"
proof -
  have c1: "nav_state s = NAV_FILE_VIEW \<and> g_playing s \<and> playing_track s = current_track s \<longrightarrow>
      play_pause_rtos pf s = Some (s\<lparr>g_pause := \<not> g_pause s\<rparr>) \<and>
      enc_sw_rtos pf s = Some (s\<lparr>g_pause := \<not> g_pause s\<rparr>) \<and>
      (pc s \<noteq> AT_LOOP_TOP \<or> \<not> notify_pending s \<longrightarrow>
         (\<forall>k q. STREAM_CALL k q \<notin> set (new_events (s\<lparr>g_pause := \<not> g_pause s\<rparr>)
                    (audio_step_rtos pf (s\<lparr>g_pause := \<not> g_pause s\<rparr>)))))"
  proof (intro impI conjI allI)
    assume h: "nav_state s = NAV_FILE_VIEW \<and> g_playing s \<and> playing_track s = current_track s"
    show "play_pause_rtos pf s = Some (s\<lparr>g_pause := \<not> g_pause s\<rparr>)"
      using h same_track_rtos[of s pf] by simp
    show "enc_sw_rtos pf s = Some (s\<lparr>g_pause := \<not> g_pause s\<rparr>)"
      using h same_track_rtos[of s pf] by simp
    fix k q
    assume "pc s \<noteq> AT_LOOP_TOP \<or> \<not> notify_pending s"
    then show "STREAM_CALL k q \<notin> set (new_events (s\<lparr>g_pause := \<not> g_pause s\<rparr>)
                    (audio_step_rtos pf (s\<lparr>g_pause := \<not> g_pause s\<rparr>)))"
      using no_stream_call_rtos[of "s\<lparr>g_pause := \<not> g_pause s\<rparr>" k q pf] by simp
  qed
  have c2: "nav_state t = NAV_FILE_VIEW \<and> (play_pause_rtos pf t = Some t' \<or> enc_sw_rtos pf t = Some t') \<and>
        ((notify_pending t' \<and> \<not> notify_pending t) \<or> (stop_flag t' \<and> \<not> stop_flag t) \<or>
         notify_value t' \<noteq> notify_value t) \<longrightarrow>
        \<not> g_playing t \<or> playing_track t \<noteq> current_track t"
    using play_request_only_rtos[of t pf t'] by blast
  have c3: "nav_state u = NAV_FILE_VIEW \<and> \<not> (g_playing u \<and> playing_track u = current_track u) \<and>
        num_tracks u > 0 \<and> audio_task_handle u \<longrightarrow>
        play_pause_rtos pf u =
          Some (u\<lparr>playing_track := current_track u, g_playing := True, g_pause := False,
                  stop_flag := True, notify_value := word_of_int (current_track u + 1),
                  notify_pending := True\<rparr>) \<and>
        enc_sw_rtos pf u = play_pause_rtos pf u"
    using other_track_rtos[of u pf] by blast
  have c4: "nav_state w = NAV_FILE_VIEW \<and> g_playing w \<and> playing_track w = current_track w \<longrightarrow>
        play_pause_v1 pf w = Some (w\<lparr>g_pause := \<not> g_pause w\<rparr>) \<and>
        enc_sw_v1 pf w = Some (w\<lparr>g_pause := \<not> g_pause w\<rparr>) \<and>
        (pc w \<noteq> AT_LOOP_TOP \<longrightarrow>
           (\<forall>k q. STREAM_CALL k q \<notin> set (new_events (w\<lparr>g_pause := \<not> g_pause w\<rparr>)
                      (audio_step_v1 pf (w\<lparr>g_pause := \<not> g_pause w\<rparr>)))))"
  proof (intro impI conjI allI)
    assume h: "nav_state w = NAV_FILE_VIEW \<and> g_playing w \<and> playing_track w = current_track w"
    show "play_pause_v1 pf w = Some (w\<lparr>g_pause := \<not> g_pause w\<rparr>)"
      using h same_track_v1[of w pf] by simp
    show "enc_sw_v1 pf w = Some (w\<lparr>g_pause := \<not> g_pause w\<rparr>)"
      using h same_track_v1[of w pf] by simp
    fix k q
    assume "pc w \<noteq> AT_LOOP_TOP"
    then show "STREAM_CALL k q \<notin> set (new_events (w\<lparr>g_pause := \<not> g_pause w\<rparr>)
                      (audio_step_v1 pf (w\<lparr>g_pause := \<not> g_pause w\<rparr>)))"
      using no_stream_call_v1[of "w\<lparr>g_pause := \<not> g_pause w\<rparr>" k q pf] by simp
  qed
  have c5: "nav_state x = NAV_FILE_VIEW \<and> (play_pause_v1 pf x = Some x' \<or> enc_sw_v1 pf x = Some x') \<and>
        track_change_request x' \<and> \<not> track_change_request x \<longrightarrow>
        \<not> g_playing x \<or> playing_track x \<noteq> current_track x"
    using play_request_only_v1[of x pf x'] by blast
  have c6: "nav_state y = NAV_FILE_VIEW \<and> \<not> (g_playing y \<and> playing_track y = current_track y) \<and>
        num_tracks y > 0 \<longrightarrow>
        play_pause_v1 pf y =
          Some (y\<lparr>playing_track := current_track y, g_playing := True, g_pause := False,
                  track_change_request := True\<rparr>) \<and>
        enc_sw_v1 pf y = play_pause_v1 pf y"
    using other_track_v1[of y pf] by blast
  show ?thesis
    by (intro conjI c1 c2 c3 c4 c5 c6)
qed

theorem same_track_toggles_pause_witness:
  "nav_state demo_rtos_playing = NAV_FILE_VIEW \<and> g_playing demo_rtos_playing
   \<and> playing_track demo_rtos_playing = current_track demo_rtos_playing
   \<and> play_pause_rtos demo_card demo_rtos_playing = Some (demo_rtos_playing\<lparr>g_pause := True\<rparr>)
   \<and> log (audio_step_rtos demo_card (demo_rtos_playing\<lparr>g_pause := True\<rparr>)) = log demo_rtos_playing
   \<and> play_pause_rtos demo_card (demo_rtos_playing\<lparr>g_playing := False\<rparr>) =
       Some (demo_rtos_playing\<lparr>stop_flag := True, notify_value := 1, notify_pending := True\<rparr>)
   \<and> play_pause_v1 demo_card demo_v1_at_eof = Some (demo_v1_at_eof\<lparr>g_pause := True\<rparr>)
   \<and> play_pause_v1 demo_card (demo_v1_at_eof\<lparr>g_playing := False\<rparr>) =
       Some (demo_v1_at_eof\<lparr>track_change_request := True\<rparr>)"
proof -
  note v1 = demo_v1_at_eof_fields
  have e1: "demo_rtos_playing\<lparr>g_playing := False, playing_track := 0, g_playing := True,
              g_pause := False, stop_flag := True, notify_value := 1, notify_pending := True\<rparr>
            = demo_rtos_playing\<lparr>stop_flag := True, notify_value := 1, notify_pending := True\<rparr>"
    by (simp add: demo_rtos_playing_def demo_rtos_requested_def initial_rtos_def)
  have e2: "demo_v1_at_eof\<lparr>g_playing := False, playing_track := 0, g_playing := True,
              g_pause := False, track_change_request := True\<rparr>
            = demo_v1_at_eof\<lparr>track_change_request := True\<rparr>"
    by (simp add: demo_v1_at_eof_def demo_v1_def)
  have l: "log (audio_step_rtos demo_card (demo_rtos_playing\<lparr>g_pause := True\<rparr>))
           = log demo_rtos_playing"
    by (simp add: audio_step_rtos_def audio_dispatch_rtos_def notify_taken_rtos_def stream_step_def stream_iter_def demo_rtos_playing_fields)
  show ?thesis
    using same_track_toggles_pause[where pf = demo_card and s = demo_rtos_playing
            and t = "demo_rtos_playing\<lparr>g_playing := False\<rparr>"
            and t' = "demo_rtos_playing\<lparr>stop_flag := True, notify_value := 1,
                        notify_pending := True\<rparr>"
            and u = "demo_rtos_playing\<lparr>g_playing := False\<rparr>"
            and w = demo_v1_at_eof
            and x = "demo_v1_at_eof\<lparr>g_playing := False\<rparr>"
            and x' = "demo_v1_at_eof\<lparr>track_change_request := True\<rparr>"
            and y = "demo_v1_at_eof\<lparr>g_playing := False\<rparr>"]
          v1 e1 e2 l
    by (simp add: demo_rtos_playing_fields)
qed

text \<open>
  Claim C5, as amended. For every path \<open>p\<close>, \<^verbatim>\<open>request_announcement\<close> of \<^verbatim>\<open>noor_v2\<close> stores
  the first 255 characters of \<open>p\<close> as the pending path (replacing an earlier one), sets
  \<^verbatim>\<open>announce_request\<close>, and changes nothing else. \<^verbatim>\<open>request_announcement\<close> of
  \<^verbatim>\<open>Noor_RTOS_version\<close> stores the first 255 characters of \<open>p\<close>, sets the shared
  \<^verbatim>\<open>stop_flag\<close> that interrupts the running stream, and, once the audio task exists, sets the
  announce bit of its notification value and marks the notification pending; it changes
  nothing else.
\<close>

theorem request_announcement_effect:
  "request_announcement_v2 (Some p) s = s\<lparr>announce_path := take 255 p, announce_request := True\<rparr>
   \<and> request_announcement_rtos (Some p) r =
       (if audio_task_handle r
        then r\<lparr>announce_path := take 255 p, stop_flag := True,
               notify_value := or (notify_value r) (push_bit 31 1), notify_pending := True\<rparr>
        else r\<lparr>announce_path := take 255 p, stop_flag := True\<rparr>)"
  using request_announcement_v2_Some[of p s] request_announcement_rtos_Some[of p r] by simp

theorem request_announcement_effect_witness:
  "announce_path (request_announcement_v2 (Some ''/sdcard/home.wav'') demo_v2_playing)
     = ''/sdcard/home.wav''
   \<and> announce_request (request_announcement_v2 (Some ''/sdcard/home.wav'') demo_v2_playing)
   \<and> announce_path (request_announcement_rtos (Some (replicate 300 CHR ''x'')) demo_rtos_playing)
     = replicate 255 CHR ''x''
   \<and> notify_value (request_announcement_rtos (Some (replicate 300 CHR ''x'')) demo_rtos_playing)
     = 2147483648"
  using request_announcement_effect[of "''/sdcard/home.wav''" demo_v2_playing]
        request_announcement_effect[of "replicate 300 CHR ''x''" _ demo_rtos_playing]
  by (simp add: demo_rtos_playing_def demo_rtos_requested_def initial_rtos_def)

text \<open>
  Claim C5 as it was stated fails on \<^verbatim>\<open>Noor_RTOS_version\<close>: there
  \<^verbatim>\<open>request_announcement\<close> itself sets the stop flag.
\<close>

theorem request_announcement_sets_stop_flag:
  "\<not> stop_flag demo_rtos_playing
   \<and> stop_flag (request_announcement_rtos (Some ''/sdcard/story1.wav'') demo_rtos_playing)"
  by (simp add: request_announcement_rtos_def Let_def demo_rtos_playing_fields)

text \<open>
  Claim C6, as amended. In \<^verbatim>\<open>Noor_RTOS_version\<close> a play request whose stream call fails
  (missing file, unparsable header, not 16 bit, or a later failure) is treated like a
  stream that completes at once: the failure is reported in the trace, the playing state
  is cleared, the task is back at the top of its loop, the request is consumed, and
  without a new notification the next step does nothing; the resulting state is the one
  reached when the file opens and has no samples, up to the trace. A failed stream call
  for an announcement likewise consumes the request and leaves the task at the top of its
  loop. In \<^verbatim>\<open>noor_v1\<close> a failed open is reported and leaves the play request standing, so
  the next round of the loop tries the same file again.
\<close>

theorem failed_stream_recovery:
  "(pc s = AT_LOOP_TOP \<and> notify_pending s \<and> notify_value s = word_of_int (idx + 1) \<and>
    0 \<le> idx \<and> idx < num_tracks s \<and> num_tracks s \<le> 64 \<and>
    stream_open pf TRACK (wav_list s ! nat idx) = OPEN_FAILED evs \<longrightarrow>
      audio_step_rtos pf s =
        s\<lparr>notify_value := 0, notify_pending := False, stop_flag := False, playing_track := - 1,
          g_playing := False, g_pause := False, log := log s @ evs\<rparr> \<and>
      audio_step_rtos pf (audio_step_rtos pf s) = audio_step_rtos pf s \<and>
      hd evs = STREAM_CALL TRACK (wav_list s ! nat idx) \<and> (\<exists>e. last evs = STREAM_FAIL e) \<and>
      (stream_open pf' TRACK (wav_list s ! nat idx) = OPENED evs' fl pos n \<and>
       take n (drop pos fl) = [] \<longrightarrow>
         audio_step_rtos pf' (audio_step_rtos pf' s) =
           (audio_step_rtos pf s)\<lparr>log := log s @ evs' @ [I2S_UNINSTALL, STREAM_RETURN]\<rparr>))
   \<and> (pc a = AT_LOOP_TOP \<and> notify_pending a \<and> and (notify_value a) NOTIFY_ANNOUNCE_BIT \<noteq> 0 \<and>
        stream_open pf ANNOUNCEMENT (take 255 (announce_path a)) = OPEN_FAILED evsa \<longrightarrow>
          audio_step_rtos pf a =
            a\<lparr>notify_value := 0, notify_pending := False, stop_flag := False,
              log := log a @ evsa\<rparr>)
   \<and> (pc w = AT_LOOP_TOP \<and> g_playing w \<and> nav_state w = NAV_FILE_VIEW \<and>
        0 \<le> playing_track w \<and> playing_track w < num_tracks w \<and>
        stream_open pf TRACK (wav_list w ! nat (playing_track w)) = OPEN_FAILED evs \<longrightarrow>
          audio_step_v1 pf w = w\<lparr>log := log w @ evs\<rparr> \<and>
          audio_step_v1 pf (audio_step_v1 pf w) = w\<lparr>log := log w @ evs @ evs\<rparr>)"
proof -
  have ra: "audio_step_rtos pf s =
        s\<lparr>notify_value := 0, notify_pending := False, stop_flag := False, playing_track := - 1,
          g_playing := False, g_pause := False, log := log s @ evs\<rparr> \<and>
      audio_step_rtos pf (audio_step_rtos pf s) = audio_step_rtos pf s \<and>
      hd evs = STREAM_CALL TRACK (wav_list s ! nat idx) \<and> (\<exists>e. last evs = STREAM_FAIL e) \<and>
      (stream_open pf' TRACK (wav_list s ! nat idx) = OPENED evs' fl pos n \<and>
       take n (drop pos fl) = [] \<longrightarrow>
         audio_step_rtos pf' (audio_step_rtos pf' s) =
           (audio_step_rtos pf s)\<lparr>log := log s @ evs' @ [I2S_UNINSTALL, STREAM_RETURN]\<rparr>)"
    if h: "pc s = AT_LOOP_TOP" "notify_pending s" "notify_value s = word_of_int (idx + 1)"
      "0 \<le> idx" "idx < num_tracks s" "num_tracks s \<le> 64"
      "stream_open pf TRACK (wav_list s ! nat idx) = OPEN_FAILED evs"
  proof -
    note f = open_failed_rtos[OF h]
    have b: "audio_step_rtos pf (audio_step_rtos pf s) = audio_step_rtos pf s"
      unfolding f by (rule blocked_rtos) (simp_all add: h(1))
    have c: "audio_step_rtos pf' (audio_step_rtos pf' s) =
           (audio_step_rtos pf s)\<lparr>log := log s @ evs' @ [I2S_UNINSTALL, STREAM_RETURN]\<rparr>"
      if "stream_open pf' TRACK (wav_list s ! nat idx) = OPENED evs' fl pos n"
        "take n (drop pos fl) = []"
      unfolding f completed_at_once_rtos[OF h(1-6) that] by simp
    show ?thesis
      using f b c stream_open_failed_reported[OF h(7)] by blast
  qed
  have b: "pc a = AT_LOOP_TOP \<and> notify_pending a \<and> and (notify_value a) NOTIFY_ANNOUNCE_BIT \<noteq> 0 \<and>
        stream_open pf ANNOUNCEMENT (take 255 (announce_path a)) = OPEN_FAILED evsa \<longrightarrow>
          audio_step_rtos pf a =
            a\<lparr>notify_value := 0, notify_pending := False, stop_flag := False,
              log := log a @ evsa\<rparr>"
    using announcement_open_failed_rtos[of a pf evsa] by blast
  have c: "pc w = AT_LOOP_TOP \<and> g_playing w \<and> nav_state w = NAV_FILE_VIEW \<and>
        0 \<le> playing_track w \<and> playing_track w < num_tracks w \<and>
        stream_open pf TRACK (wav_list w ! nat (playing_track w)) = OPEN_FAILED evs \<longrightarrow>
          audio_step_v1 pf w = w\<lparr>log := log w @ evs\<rparr> \<and>
          audio_step_v1 pf (audio_step_v1 pf w) = w\<lparr>log := log w @ evs @ evs\<rparr>"
    using open_failed_v1[of w pf evs] by blast
  show ?thesis
    using ra b c by blast
qed

theorem failed_stream_recovery_witness:
  "stream_open card_removed TRACK ''/sdcard/01/S1.wav'' =
     OPEN_FAILED [STREAM_CALL TRACK ''/sdcard/01/S1.wav'', STREAM_FAIL NOT_FOUND]
   \<and> audio_step_rtos card_removed demo_rtos_requested =
       demo_rtos_requested\<lparr>notify_value := 0, notify_pending := False, stop_flag := False,
         playing_track := - 1, g_playing := False,
         log := [STREAM_CALL TRACK ''/sdcard/01/S1.wav'', STREAM_FAIL NOT_FOUND]\<rparr>
   \<and> audio_step_rtos card_silent (audio_step_rtos card_silent demo_rtos_requested) =
       demo_rtos_requested\<lparr>notify_value := 0, notify_pending := False, stop_flag := False,
         playing_track := - 1, g_playing := False,
         log := [STREAM_CALL TRACK ''/sdcard/01/S1.wav'', I2S_INSTALL, I2S_UNINSTALL,
                 STREAM_RETURN]\<rparr>
   \<and> audio_step_rtos card_removed
         (request_announcement_rtos (Some ''/sdcard/story1.wav'') demo_rtos_requested) =
       demo_rtos_requested\<lparr>notify_value := 0, notify_pending := False, stop_flag := False,
         log := [STREAM_CALL ANNOUNCEMENT ''/sdcard/story1.wav'', STREAM_FAIL NOT_FOUND]\<rparr>
   \<and> audio_step_v1 card_removed (demo_v1 AT_LOOP_TOP []) =
       demo_v1 AT_LOOP_TOP [STREAM_CALL TRACK ''/sdcard/01/S1.wav'', STREAM_FAIL NOT_FOUND]"
proof -
  have v1: "pc (demo_v1 AT_LOOP_TOP []) = AT_LOOP_TOP" "g_playing (demo_v1 AT_LOOP_TOP [])"
    "nav_state (demo_v1 AT_LOOP_TOP []) = NAV_FILE_VIEW"
    "playing_track (demo_v1 AT_LOOP_TOP []) = 0"
    "wav_list (demo_v1 AT_LOOP_TOP []) = [''/sdcard/01/S1.wav'']"
    "log (demo_v1 AT_LOOP_TOP []) = []"
    by (simp_all add: demo_v1_def)
  have e: "(demo_v1 AT_LOOP_TOP [])\<lparr>log := evs\<rparr> = demo_v1 AT_LOOP_TOP evs" for evs
    by (simp add: demo_v1_def)
  have g: "\<not> g_pause demo_rtos_requested"
    by (simp add: demo_rtos_requested_def initial_rtos_def)
  have u: "demo_rtos_requested\<lparr>notify_value := 0, notify_pending := False, stop_flag := False,
             playing_track := - 1, g_playing := False, g_pause := False, log := evs\<rparr>
         = demo_rtos_requested\<lparr>notify_value := 0, notify_pending := False, stop_flag := False,
             playing_track := - 1, g_playing := False, log := evs\<rparr>" for evs
    by (simp add: demo_rtos_requested_def initial_rtos_def)
  have d: "take 2048 (drop 44 (take 44 demo_wav)) = []"
    by (simp add: demo_wav_def bytes_of_def)
  let ?a = "request_announcement_rtos (Some ''/sdcard/story1.wav'') demo_rtos_requested"
  have r: "?a = demo_rtos_requested\<lparr>notify_value := or 1 NOTIFY_ANNOUNCE_BIT\<rparr>"
    by (simp add: request_announcement_rtos_def demo_rtos_requested_def initial_rtos_def
        strncpy_path_def ANNOUNCE_PATH_MAX_def Let_def)
  have q: "pc ?a = AT_LOOP_TOP" "notify_pending ?a"
    "and (notify_value ?a) NOTIFY_ANNOUNCE_BIT \<noteq> 0"
    "announce_path ?a = ''/sdcard/story1.wav''" "log ?a = []"
    unfolding r
    by (simp_all add: demo_rtos_requested_def initial_rtos_def announce_bit_set
        announce_bit_nonzero)
  have k: "?a\<lparr>notify_value := 0, notify_pending := False, stop_flag := False, log := evs\<rparr>
         = demo_rtos_requested\<lparr>notify_value := 0, notify_pending := False, stop_flag := False,
             log := evs\<rparr>" for evs
    unfolding r by simp
  show ?thesis
    using failed_stream_recovery[where pf = card_removed and pf' = card_silent
            and s = demo_rtos_requested and idx = 0
            and evs = "[STREAM_CALL TRACK ''/sdcard/01/S1.wav'', STREAM_FAIL NOT_FOUND]"
            and evs' = "[STREAM_CALL TRACK ''/sdcard/01/S1.wav'', I2S_INSTALL]"
            and fl = "take 44 demo_wav" and pos = 44 and n = 2048
            and a = ?a
            and evsa = "[STREAM_CALL ANNOUNCEMENT ''/sdcard/story1.wav'', STREAM_FAIL NOT_FOUND]"
            and w = "demo_v1 AT_LOOP_TOP []"]
          v1 d q
    by (simp add: demo_rtos_requested_fields stream_open_removed stream_open_silent e u k)
qed

text \<open>
  Claim C6 as it was stated fails on \<^verbatim>\<open>noor_v1\<close>: with the file missing, two rounds of
  the audio task try the same file twice.
\<close>

theorem failed_open_is_retried_v1:
  "wav_list (demo_v1 AT_LOOP_TOP []) = [''/sdcard/01/S1.wav'']
   \<and> log (audio_step_v1 card_removed (audio_step_v1 card_removed (demo_v1 AT_LOOP_TOP []))) =
       [STREAM_CALL TRACK ''/sdcard/01/S1.wav'', STREAM_FAIL NOT_FOUND,
        STREAM_CALL TRACK ''/sdcard/01/S1.wav'', STREAM_FAIL NOT_FOUND]"
  by (simp add: audio_step_v1_def demo_v1_def stream_open_removed Let_def)

text \<open>
  Claim C7, as amended. In \<^verbatim>\<open>stream_file_interruptible\<close> of \<^verbatim>\<open>noor_v2\<close> and of
  \<^verbatim>\<open>Noor_RTOS_version\<close>, a chunk read that returns no bytes, in a round in which the stream
  is neither stopped nor paused, ends the chunk loop: the output is uninstalled, the call
  returns without the interrupted message, and nothing more of the file is written. In
  \<^verbatim>\<open>noor_v1\<close> the inlined chunk loop instead seeks back to the start of the data and goes
  on, so the file is played again.
\<close>

theorem end_of_file_ends_stream:
  "(pc r = IN_STREAM k path fl pos n \<and> \<not> stop_flag r \<and> \<not> g_pause r \<and>
    take n (drop pos fl) = [] \<longrightarrow>
      pc (audio_step_rtos pf r) = AT_LOOP_TOP \<and>
      log (audio_step_rtos pf r) = log r @ [I2S_UNINSTALL, STREAM_RETURN])
   \<and> (pc s = IN_STREAM k path fl pos n \<and> \<not> announce_request s \<and>
        take n (drop pos fl) = [] \<longrightarrow>
          pc (audio_step_v2 pf s) = AT_LOOP_TOP \<and>
          log (audio_step_v2 pf s) = log s @ [I2S_UNINSTALL, STREAM_RETURN])
   \<and> (pc w = IN_STREAM k path fl pos n \<and> g_playing w \<and> \<not> track_change_request w \<and>
        \<not> g_stop_and_rewind w \<and> \<not> g_pause w \<and> take n (drop pos fl) = [] \<longrightarrow>
          audio_step_v1 pf w = w\<lparr>pc := IN_STREAM k path fl WAV_DATA_OFFSET n\<rparr>)"
proof -
  have a: "pc (audio_step_rtos pf r) = AT_LOOP_TOP \<and>
      log (audio_step_rtos pf r) = log r @ [I2S_UNINSTALL, STREAM_RETURN]"
    if "pc r = IN_STREAM k path fl pos n" "\<not> stop_flag r" "\<not> g_pause r"
      "take n (drop pos fl) = []"
    using eof_rtos[of r k path fl pos n pf] that by simp
  have b: "pc (audio_step_v2 pf s) = AT_LOOP_TOP \<and>
      log (audio_step_v2 pf s) = log s @ [I2S_UNINSTALL, STREAM_RETURN]"
    if "pc s = IN_STREAM k path fl pos n" "\<not> announce_request s" "take n (drop pos fl) = []"
    using eof_v2[of s k path fl pos n pf] that by (simp add: stream_returned_v2_def)
  show ?thesis
    using a b eof_v1[of w k path fl pos n pf] by blast
qed

theorem end_of_file_ends_stream_witness:
  "take 2048 (drop 48 demo_wav) = []
   \<and> pc (audio_step_rtos demo_card demo_rtos_playing) = AT_LOOP_TOP
   \<and> log (audio_step_rtos demo_card demo_rtos_playing) =
       [STREAM_CALL TRACK ''/sdcard/01/S1.wav'', I2S_INSTALL, I2S_WRITE [1, 0, 2, 0],
        I2S_UNINSTALL, STREAM_RETURN]
   \<and> log (audio_step_v2 demo_card
            (demo_v2_playing\<lparr>pc := IN_STREAM TRACK ''/sdcard/01/S1.wav'' demo_wav 48 2048\<rparr>)) =
       [STREAM_CALL TRACK ''/sdcard/01/S1.wav'', I2S_INSTALL, I2S_UNINSTALL, STREAM_RETURN]
   \<and> pc (audio_step_v1 demo_card demo_v1_at_eof) =
       IN_STREAM TRACK ''/sdcard/01/S1.wav'' demo_wav 44 2048"
proof -
  note v1 = demo_v1_at_eof_fields
  note v2 = demo_v2_playing_fields
  show ?thesis
    using end_of_file_ends_stream[where pf = demo_card and r = demo_rtos_playing
            and s = "demo_v2_playing\<lparr>pc := IN_STREAM TRACK ''/sdcard/01/S1.wav'' demo_wav 48 2048\<rparr>"
            and w = demo_v1_at_eof and k = TRACK and path = "''/sdcard/01/S1.wav''"
            and fl = demo_wav and pos = 48 and n = 2048]
          v1 v2 demo_data_end
    by (simp add: demo_rtos_playing_fields WAV_DATA_OFFSET_def)
qed

text \<open>
  Claim C7 as it was stated fails on \<^verbatim>\<open>noor_v1\<close>: at the end of the file the audio
  task stays in the stream, and its next round writes the first chunk of the file again.
\<close>

theorem end_of_file_rewinds_v1:
  "pc demo_v1_at_eof = IN_STREAM TRACK ''/sdcard/01/S1.wav'' demo_wav 48 2048
   \<and> take 2048 (drop 48 demo_wav) = []
   \<and> log demo_v1_at_eof =
       [STREAM_CALL TRACK ''/sdcard/01/S1.wav'', I2S_INSTALL, I2S_WRITE [1, 0, 2, 0]]
   \<and> log (audio_step_v1 demo_card (audio_step_v1 demo_card demo_v1_at_eof)) =
       [STREAM_CALL TRACK ''/sdcard/01/S1.wav'', I2S_INSTALL, I2S_WRITE [1, 0, 2, 0],
        I2S_WRITE [1, 0, 2, 0]]"
  by (simp add: audio_step_v1_def demo_v1_at_eof_def demo_v1_def demo_data_end demo_data_start
      demo_wav_length WAV_DATA_OFFSET_def Let_def)

text \<open>
  Claim C8, as amended. Let the selected track be \<open>folder/b\<close> with file name \<open>b\<close>. If \<open>b\<close>
  does not start with \<^verbatim>\<open>S\<close> or \<^verbatim>\<open>s\<close> followed by a decimal digit, no announcement is
  requested. If it does, with digit \<open>cb\<close>: when \<^verbatim>\<open>/sdcard/story<cb>.wav\<close> exists it is
  requested; otherwise \<^verbatim>\<open>folder/story<cb>.wav\<close> is requested when it exists, the folder path
  is shorter than 256 characters and the buffer for the candidate path can be allocated;
  in every other case no announcement is requested. This holds for the
  \<^verbatim>\<open>request_announcement\<close> of either revision. An accepted encoder step in the file view of
  \<^verbatim>\<open>Noor_RTOS_version\<close> moves the selection by one, modulo the number of tracks, and runs
  this block on the newly selected track.
\<close>

theorem story_announcement:
  "CHR ''/'' \<notin> set b \<longrightarrow>
     ((\<forall>ca cb rest. b = ca # cb # rest \<longrightarrow> \<not> ((ca = CHR ''S'' \<or> ca = CHR ''s'') \<and> isdigit cb)) \<longrightarrow>
        announce_story request pf (folder @ ''/'' @ b) s = s)
     \<and> (b = ca # cb # rest \<and> (ca = CHR ''S'' \<or> ca = CHR ''s'') \<and> isdigit cb \<longrightarrow>
          announce_story request pf (folder @ ''/'' @ b) s =
            (if access pf (''/sdcard/story'' @ [cb] @ ''.wav'')
               then request (Some (''/sdcard/story'' @ [cb] @ ''.wav'')) s
             else if length folder < 256 \<and> malloc_ok pf (length folder + 12) \<and>
                     access pf (folder @ ''/story'' @ [cb] @ ''.wav'')
               then request (Some (folder @ ''/story'' @ [cb] @ ''.wav'')) s
             else s))
     \<and> (nav_state r = NAV_FILE_VIEW \<and> 0 \<le> current_track r \<and> current_track r < num_tracks r \<longrightarrow>
          enc_clk_rtos pf dt r =
            (let cur = (if dt = 0 then (current_track r + 1) mod num_tracks r
                        else (current_track r - 1 + num_tracks r) mod num_tracks r)
             in Some (announce_story request_announcement_rtos pf (wav_list r ! nat cur)
                        (r\<lparr>current_track := cur\<rparr>))))"
proof -
  have a: "announce_story request pf (folder @ ''/'' @ b) s = s"
    if "CHR ''/'' \<notin> set b"
      "\<forall>ca cb rest. b = ca # cb # rest \<longrightarrow> \<not> ((ca = CHR ''S'' \<or> ca = CHR ''s'') \<and> isdigit cb)"
    using announce_story_no_match[of b request pf folder s] that by blast
  have c: "announce_story request pf (folder @ ''/'' @ b) s =
            (if access pf (''/sdcard/story'' @ [cb] @ ''.wav'')
               then request (Some (''/sdcard/story'' @ [cb] @ ''.wav'')) s
             else if length folder < 256 \<and> malloc_ok pf (length folder + 12) \<and>
                     access pf (folder @ ''/story'' @ [cb] @ ''.wav'')
               then request (Some (folder @ ''/story'' @ [cb] @ ''.wav'')) s
             else s)"
    if "CHR ''/'' \<notin> set b" "b = ca # cb # rest" "ca = CHR ''S'' \<or> ca = CHR ''s''" "isdigit cb"
    using announce_story_match[OF that] .
  show ?thesis
    using a c enc_clk_rtos_file_view[of r pf dt] by blast
qed

theorem story_announcement_witness:
  "CHR ''/'' \<notin> set ''S1.wav'' \<and> isdigit CHR ''1''
   \<and> announce_story request_announcement_v2 demo_card ''/sdcard/01/S1.wav'' demo_v2_playing =
       request_announcement_v2 (Some ''/sdcard/story1.wav'') demo_v2_playing
   \<and> announce_story request_announcement_v2 demo_card ''/sdcard/01/other.wav'' demo_v2_playing =
       demo_v2_playing
   \<and> enc_clk_rtos demo_card 0 demo_rtos_playing =
       Some (request_announcement_rtos (Some ''/sdcard/story1.wav'') demo_rtos_playing)"
proof -
  have d: "isdigit CHR ''1''" by (simp add: isdigit_def)
  have o: "\<forall>ca cb rest. ''other.wav'' = ca # cb # rest \<longrightarrow>
             \<not> ((ca = CHR ''S'' \<or> ca = CHR ''s'') \<and> isdigit cb)"
    by simp
  have acc: "access demo_card ''/sdcard/story1.wav''" by (simp add: demo_card_def)
  have cur: "demo_rtos_playing\<lparr>current_track := 0\<rparr> = demo_rtos_playing"
    by (simp add: demo_rtos_playing_def demo_rtos_requested_def initial_rtos_def)
  have 1: "announce_story request_announcement_v2 demo_card ''/sdcard/01/S1.wav'' demo_v2_playing =
       request_announcement_v2 (Some ''/sdcard/story1.wav'') demo_v2_playing"
    using story_announcement[where b = "''S1.wav''" and folder = "''/sdcard/01''"
            and ca = "CHR ''S''" and cb = "CHR ''1''" and rest = "''.wav''"
            and request = request_announcement_v2 and pf = demo_card and s = demo_v2_playing
            and r = demo_rtos_playing and dt = 0]
          d acc
    by simp
  have 2: "announce_story request_announcement_v2 demo_card ''/sdcard/01/other.wav''
             demo_v2_playing = demo_v2_playing"
    using story_announcement[where b = "''other.wav''" and folder = "''/sdcard/01''"
            and request = request_announcement_v2 and pf = demo_card and s = demo_v2_playing
            and r = demo_rtos_playing and dt = 0]
          o
    by simp
  have 3: "announce_story request_announcement_rtos demo_card ''/sdcard/01/S1.wav''
             demo_rtos_playing =
           request_announcement_rtos (Some ''/sdcard/story1.wav'') demo_rtos_playing"
    using story_announcement[where b = "''S1.wav''" and folder = "''/sdcard/01''"
            and ca = "CHR ''S''" and cb = "CHR ''1''" and rest = "''.wav''"
            and request = request_announcement_rtos and pf = demo_card and s = demo_rtos_playing
            and r = demo_rtos_playing and dt = 0]
          d acc
    by simp
  have 4: "enc_clk_rtos demo_card 0 demo_rtos_playing =
       Some (request_announcement_rtos (Some ''/sdcard/story1.wav'') demo_rtos_playing)"
    using story_announcement[where b = "''S1.wav''" and folder = "''/sdcard/01''"
            and request = request_announcement_rtos and pf = demo_card and s = demo_rtos_playing
            and r = demo_rtos_playing and dt = 0]
          3
    by (simp add: demo_rtos_playing_fields cur)
  show ?thesis using d 1 2 4 by simp
qed

text \<open>
  Claim C8 as it was stated fails when the track's folder path has 256 characters or
  more: the clip inside the folder exists, the root clip does not, and no announcement is
  requested.
\<close>

theorem long_folder_gets_no_announcement:
  "length long_folder = 256
   \<and> access long_card (long_folder @ ''/story1.wav'')
   \<and> \<not> access long_card ''/sdcard/story1.wav''
   \<and> announce_story request_announcement_rtos long_card (long_folder @ ''/S1.wav'')
       demo_rtos_playing = demo_rtos_playing"
proof -
  have l: "length long_folder = 256" by (simp add: long_folder_def)
  have a: "access long_card (long_folder @ ''/story1.wav'')"
    by (simp add: long_card_def)
  have n: "\<not> access long_card ''/sdcard/story1.wav''"
    by (simp add: long_card_def long_folder_def)
  have d: "isdigit CHR ''1''" by (simp add: isdigit_def)
  have "announce_story request_announcement_rtos long_card (long_folder @ ''/'' @ ''S1.wav'')
          demo_rtos_playing = demo_rtos_playing"
    using announce_story_match[where b = "''S1.wav''" and ca = "CHR ''S''" and cb = "CHR ''1''"
            and r = "''.wav''" and folder = long_folder and pf = long_card
            and request = request_announcement_rtos and s = demo_rtos_playing]
          d n l
    by simp
  then show ?thesis using l a n by simp
qed

text \<open>
  Claim C9. A step event is accepted (the step timer is set to its receive time and the
  step handler runs once) exactly when at least 60 ms, measured on the 32-bit millisecond
  tick time and counted from the last accepted step (time 0 before the first), have
  passed; a rejected event changes neither the timers nor anything else, so it is not
  replayed later. The switch has a timer of its own: a switch event leaves the step
  timer as it was. Consequently, of a burst of step events all received within less than
  60 ms of its first event, at most one is accepted; and when the burst begins as the
  first sentence lets a step begin, with its first event at least 60 ms after the last
  accepted step, exactly one is accepted, the first.
\<close>

theorem rotary_debounce:
  "(evt_type ev = ENC_EVT_CLK \<longrightarrow>
      encoder_iter on_clk on_sw now ev (l, s) =
        (if 60 \<le> unat (now - last_step_time l)
         then map_option (Pair (l\<lparr>last_step_time := now\<rparr>)) (on_clk (dt_level ev) s)
         else Some (l, s)))
   \<and> (evt_type sv = ENC_EVT_SW \<and> encoder_iter on_clk on_sw now sv (l, s) = Some (la, sa) \<longrightarrow>
        last_step_time la = last_step_time l)
   \<and> (in_window tb evs \<longrightarrow> (\<exists>c. count_steps evs l' = Some c \<and> c \<le> 1))
   \<and> (in_window tb evs \<and> 60 \<le> unat (tb - last_step_time l') \<longrightarrow> count_steps evs l' = Some 1)"
  using encoder_iter_clk[of ev on_clk on_sw now l s] burst_at_most_one[of tb evs l']
        burst_exactly_one[of tb evs l']
        encoder_iter_sw_keeps_step_timer[of sv on_clk on_sw now l s la sa]
  by blast

theorem rotary_debounce_witness:
  "in_window 2000 [(2000, clk), (2010, clk), (2059, clk)]
   \<and> count_steps [(2000, clk), (2010, clk), (2059, clk)]
       \<lparr>last_step_time = 1000, last_sw_time = 0\<rparr> = Some 1
   \<and> encoder_iter (\<lambda>dt n. Some (Suc n)) Some 2010 clk
       (\<lparr>last_step_time = 2000, last_sw_time = 0\<rparr>, 1 :: nat) =
       Some (\<lparr>last_step_time = 2000, last_sw_time = 0\<rparr>, 1)
   \<and> encoder_iter (\<lambda>dt n. Some (Suc n)) Some 2010 sw
       (\<lparr>last_step_time = 2000, last_sw_time = 0\<rparr>, 1 :: nat) =
       Some (\<lparr>last_step_time = 2000, last_sw_time = 2010\<rparr>, 1)"
proof -
  have w: "in_window 2000 [(2000, clk), (2010, clk), (2059, clk)]"
    by (simp add: in_window_def clk_def)
  have c: "evt_type clk = ENC_EVT_CLK" "evt_type sw = ENC_EVT_SW"
    by (simp_all add: clk_def sw_def)
  have p: "encoder_iter (\<lambda>dt n. Some (Suc n)) Some 2010 sw
       (\<lparr>last_step_time = 2000, last_sw_time = 0\<rparr>, 1 :: nat) =
       Some (\<lparr>last_step_time = 2000, last_sw_time = 2010\<rparr>, 1)"
    by (simp add: encoder_iter_def sw_def DEBOUNCE_MS_def)
  show ?thesis
    using rotary_debounce[where ev = clk and sv = sw and now = 2010
            and on_clk = "\<lambda>dt n. Some (Suc n)" and on_sw = Some
            and l = "\<lparr>last_step_time = 2000, last_sw_time = 0\<rparr>" and s = "1 :: nat"
            and la = "\<lparr>last_step_time = 2000, last_sw_time = 2010\<rparr>" and sa = "1 :: nat"
            and tb = 2000 and evs = "[(2000, clk), (2010, clk), (2059, clk)]"
            and l' = "\<lparr>last_step_time = 1000, last_sw_time = 0\<rparr>"]
          w c p
    by simp
qed

text \<open>
  Claim C10. The folder scan stores at most 32 folders and the track scan of a folder at
  most 64 files; once the scan of a directory listing has filled the list, whatever
  entries follow in the listing do not change the result.
\<close>

theorem scan_caps:
  "length (folder_list (scan_root_folders pf path s)) \<le> 32
   \<and> length (wav_list (scan_wavs_in_folder pf path' s')) \<le> 64
   \<and> (length (scan_root_loop pf path es []) = 32 \<longrightarrow>
        scan_root_loop pf path (es @ extra) [] = scan_root_loop pf path es [])
   \<and> (length (scan_wavs_loop pf path' es' []) = 64 \<longrightarrow>
        scan_wavs_loop pf path' (es' @ extra') [] = scan_wavs_loop pf path' es' [])"
  using scan_root_loop_le[of "[]" pf path] scan_wavs_loop_le[of "[]" pf path']
        scan_root_loop_append[of "[]" pf path es extra]
        scan_wavs_loop_append[of "[]" pf path' es' extra']
  by (simp add: scan_root_folders_def scan_wavs_in_folder_def free_folder_list_def
      free_wav_list_def MAX_FOLDERS_def MAX_WAV_FILES_def Let_def split: option.splits)

theorem scan_caps_witness:
  "length (scan_root_loop no_card ''/sdcard'' (replicate 32 (dir_entry ''a'')) []) = 32
   \<and> scan_root_loop no_card ''/sdcard'' (replicate 32 (dir_entry ''a'') @ [dir_entry ''b'']) [] =
       scan_root_loop no_card ''/sdcard'' (replicate 32 (dir_entry ''a'')) []
   \<and> length (scan_wavs_loop no_card ''/sdcard/a'' (replicate 64 (wav_entry ''t.wav'')) []) = 64
   \<and> scan_wavs_loop no_card ''/sdcard/a''
         (replicate 64 (wav_entry ''t.wav'') @ [wav_entry ''u.wav'']) [] =
       scan_wavs_loop no_card ''/sdcard/a'' (replicate 64 (wav_entry ''t.wav'')) []"
proof -
  have h1: "length (scan_root_loop no_card ''/sdcard'' (replicate 32 (dir_entry ''a'')) []) = 32"
    by code_simp
  have h2: "length (scan_wavs_loop no_card ''/sdcard/a'' (replicate 64 (wav_entry ''t.wav'')) [])
            = 64"
    by code_simp
  show ?thesis
    using scan_caps[where pf = no_card and path = "''/sdcard''" and path' = "''/sdcard/a''"
            and es = "replicate 32 (dir_entry ''a'')" and extra = "[dir_entry ''b'']"
            and es' = "replicate 64 (wav_entry ''t.wav'')" and extra' = "[wav_entry ''u.wav'']"
            and s = initial_rtos and s' = initial_rtos]
          h1 h2
    by blast
qed

end
